theory Spec2Isabelle
  imports Complex_Main "HOL-Library.AList" "HOL-Library.Sublist" "HOL-Library.Log_Nat"
begin

section \<open>Python values used by \<open>compare_performance.py\<close>\<close>

text \<open>
  The exceptions that the modelled code can meet. \<open>IndexError\<close> and \<open>ValueError\<close> arise
  inside the \<^verbatim>\<open>try\<close> blocks of the parsing loop, \<open>ZeroDivisionError\<close> is what \<^verbatim>\<open>/\<close>
  raises on a zero divisor, \<open>TimeoutExpired\<close> is what \<^verbatim>\<open>subprocess.run(..., timeout=600)\<close>
  raises when the child does not finish in time.
\<close>

datatype py_error = IndexError | ValueError | ZeroDivisionError | TimeoutExpired

text \<open>
  A Python \<^verbatim>\<open>float\<close>. A finite float is represented by the rational number it denotes,
  and the two zeros, which compare equal, are one value. The conversion of a string rounds
  to the nearest double (\<open>round_double\<close> below); the quotient and the difference of two
  floats are kept exact.
\<close>

datatype pyfloat = Finite rat | PosInf | NegInf | NaN

text \<open>\<^verbatim>\<open>x > 0\<close> on floats: every comparison with NaN is false.\<close>

fun gt_zero :: "pyfloat \<Rightarrow> bool" where
  "gt_zero (Finite r) = (0 < r)"
| "gt_zero PosInf = True"
| "gt_zero NegInf = False"
| "gt_zero NaN = False"

text \<open>
  \<^verbatim>\<open>x / y\<close> on floats: a zero divisor raises, everything else follows IEEE 754
  (without rounding).
\<close>

fun py_truediv :: "pyfloat \<Rightarrow> pyfloat \<Rightarrow> py_error + pyfloat" where
  "py_truediv (Finite a) (Finite b) =
     (if b = 0 then Inl ZeroDivisionError else Inr (Finite (a / b)))"
| "py_truediv NaN (Finite b) = (if b = 0 then Inl ZeroDivisionError else Inr NaN)"
| "py_truediv PosInf (Finite b) =
     (if b = 0 then Inl ZeroDivisionError else Inr (if 0 < b then PosInf else NegInf))"
| "py_truediv NegInf (Finite b) =
     (if b = 0 then Inl ZeroDivisionError else Inr (if 0 < b then NegInf else PosInf))"
| "py_truediv (Finite a) PosInf = Inr (Finite 0)"
| "py_truediv (Finite a) NegInf = Inr (Finite 0)"
| "py_truediv x y = Inr NaN"

subsection \<open>Strings\<close>

text \<open>
  Strings are lists of characters. The program's text is taken to be ASCII: \<open>is_space\<close> is
  \<^verbatim>\<open>str.isspace\<close> and \<open>lower\<close> is \<^verbatim>\<open>str.lower\<close> on the ASCII range.
\<close>

definition is_space :: "char \<Rightarrow> bool" where
  "is_space c = (c \<in> set [CHR 0x09, CHR 0x0A, CHR 0x0B, CHR 0x0C, CHR 0x0D,
                           CHR 0x1C, CHR 0x1D, CHR 0x1E, CHR 0x1F, CHR 0x20])"

definition lower_char :: "char \<Rightarrow> char" where
  "lower_char c =
     (case map_of (zip ''ABCDEFGHIJKLMNOPQRSTUVWXYZ'' ''abcdefghijklmnopqrstuvwxyz'') c of
        Some d \<Rightarrow> d
      | None \<Rightarrow> c)"

definition lower :: "string \<Rightarrow> string" where
  "lower s = map lower_char s"

text \<open>\<^verbatim>\<open>pat in s\<close> on strings is containment as a contiguous substring.\<close>

definition py_in :: "string \<Rightarrow> string \<Rightarrow> bool" where
  "py_in pat s = sublist pat s"

text \<open>\<^verbatim>\<open>s.split(sep)\<close> for a one-character separator: never empty.\<close>

fun py_split :: "char \<Rightarrow> string \<Rightarrow> string list" where
  "py_split sep [] = [[]]"
| "py_split sep (c # cs) =
     (if c = sep then [] # py_split sep cs
      else (case py_split sep cs of
              [] \<Rightarrow> [[c]]
            | p # ps \<Rightarrow> (c # p) # ps))"

text \<open>\<^verbatim>\<open>xs[-1]\<close> and \<^verbatim>\<open>xs[0]\<close>: both raise on an empty list.\<close>

definition py_last :: "'a list \<Rightarrow> py_error + 'a" where
  "py_last xs = (case rev xs of [] \<Rightarrow> Inl IndexError | x # _ \<Rightarrow> Inr x)"

definition py_first :: "'a list \<Rightarrow> py_error + 'a" where
  "py_first xs = (case xs of [] \<Rightarrow> Inl IndexError | x # _ \<Rightarrow> Inr x)"

text \<open>\<^verbatim>\<open>s.strip()\<close>: whitespace removed at both ends.\<close>

definition strip :: "string \<Rightarrow> string" where
  "strip s = rev (dropWhile is_space (rev (dropWhile is_space s)))"

text \<open>
  \<^verbatim>\<open>s.split()\<close>: the maximal runs of non-whitespace characters. The first argument
  of \<open>split_ws\<close> is the run being read.
\<close>

fun split_ws :: "string \<Rightarrow> string \<Rightarrow> string list" where
  "split_ws cur [] = (if cur = [] then [] else [cur])"
| "split_ws cur (c # cs) =
     (if is_space c then (if cur = [] then split_ws [] cs else cur # split_ws [] cs)
      else split_ws (cur @ [c]) cs)"

definition py_split_ws :: "string \<Rightarrow> string list" where
  "py_split_ws s = split_ws [] s"

subsection \<open>The builtin \<open>float\<close> on strings\<close>

text \<open>
  The grammar of the Python language reference:
  \<^verbatim>\<open>
  floatvalue  ::= [sign] (floatnumber | "inf" | "infinity" | "nan")
  floatnumber ::= number [exponent]
  number      ::= [digitpart] "." digitpart | digitpart ["."]
  exponent    ::= ("e" | "E") [sign] digitpart
  digitpart   ::= digit (["_"] digit)*
  \<close>
  with surrounding whitespace ignored and the three names read case-insensitively.
  Anything else raises \<open>ValueError\<close>.
\<close>

definition is_digit :: "char \<Rightarrow> bool" where
  "is_digit c = (c \<in> set ''0123456789'')"

definition digit_val :: "char \<Rightarrow> nat" where
  "digit_val c =
     (case map_of (zip ''0123456789'' [0, 1, 2, 3, 4, 5, 6, 7, 8, 9]) c of
        Some d \<Rightarrow> d
      | None \<Rightarrow> 0)"

text \<open>After a first digit: the digits of \<open>(["_"] digit)*\<close> and what follows them.\<close>

fun digitpart_rest :: "string \<Rightarrow> string \<times> string" where
  "digitpart_rest [] = ([], [])"
| "digitpart_rest [c] = (if is_digit c then ([c], []) else ([], [c]))"
| "digitpart_rest (c # d # cs) =
     (if is_digit c then (case digitpart_rest (d # cs) of (ds, r) \<Rightarrow> (c # ds, r))
      else if c = CHR ''_'' \<and> is_digit d then (case digitpart_rest cs of (ds, r) \<Rightarrow> (d # ds, r))
      else ([], c # d # cs))"

definition digitpart :: "string \<Rightarrow> (string \<times> string) option" where
  "digitpart s =
     (case s of
        [] \<Rightarrow> None
      | c # cs \<Rightarrow>
          if is_digit c then (case digitpart_rest cs of (ds, r) \<Rightarrow> Some (c # ds, r))
          else None)"

definition nat_of_digits :: "string \<Rightarrow> nat" where
  "nat_of_digits ds = foldl (\<lambda>a c. 10 * a + digit_val c) 0 ds"

text \<open>An optional sign: whether it is a minus, and the rest.\<close>

definition parse_sign :: "string \<Rightarrow> bool \<times> string" where
  "parse_sign s =
     (case s of
        [] \<Rightarrow> (False, [])
      | c # cs \<Rightarrow>
          if c = CHR ''-'' then (True, cs)
          else if c = CHR ''+'' then (False, cs)
          else (False, s))"

text \<open>\<open>number\<close>: the digits before the point, the digits after it, and the rest.\<close>

definition parse_number :: "string \<Rightarrow> (string \<times> string \<times> string) option" where
  "parse_number s =
     (case digitpart s of
        Some (ip, r) \<Rightarrow>
          (case r of
             [] \<Rightarrow> Some (ip, [], [])
           | c # r' \<Rightarrow>
               if c = CHR ''.'' then
                 (case digitpart r' of
                    Some (fp, r'') \<Rightarrow> Some (ip, fp, r'')
                  | None \<Rightarrow> Some (ip, [], r'))
               else Some (ip, [], r))
      | None \<Rightarrow>
          (case s of
             [] \<Rightarrow> None
           | c # r' \<Rightarrow>
               if c = CHR ''.'' then
                 (case digitpart r' of
                    Some (fp, r'') \<Rightarrow> Some ([], fp, r'')
                  | None \<Rightarrow> None)
               else None))"

text \<open>The optional exponent, which must reach the end of the string.\<close>

definition parse_exponent :: "string \<Rightarrow> int option" where
  "parse_exponent s =
     (case s of
        [] \<Rightarrow> Some 0
      | c # r \<Rightarrow>
          if c = CHR ''e'' \<or> c = CHR ''E'' then
            (case parse_sign r of
               (neg, r') \<Rightarrow>
                 (case digitpart r' of
                    Some (ds, []) \<Rightarrow>
                      Some (if neg then - int (nat_of_digits ds) else int (nat_of_digits ds))
                  | Some (ds, x # xs) \<Rightarrow> None
                  | None \<Rightarrow> None))
          else None)"

definition scale10 :: "rat \<Rightarrow> int \<Rightarrow> rat" where
  "scale10 m e = (if 0 \<le> e then m * 10 ^ nat e else m / 10 ^ nat (- e))"

text \<open>
  The conversion rounds the exact decimal value to the nearest IEEE 754 double, ties to
  the even significand, and gives an infinity when the rounded value does not fit. For
  \<open>0 < x\<close>, \<open>floor_log2 x\<close> is the exponent \<open>k\<close> with \<open>2\<^sup>k \<le> x < 2\<^sup>k\<^sup>+\<^sup>1\<close>; doubles
  with that exponent are \<open>2\<^sup>k\<^sup>-\<^sup>5\<^sup>2\<close> apart, and below \<open>2\<^sup>-\<^sup>1\<^sup>0\<^sup>2\<^sup>2\<close> (the subnormal range) they
  are \<open>2\<^sup>-\<^sup>1\<^sup>0\<^sup>7\<^sup>4\<close> apart.
\<close>

definition floor_log2 :: "rat \<Rightarrow> int" where
  "floor_log2 x =
     (case quotient_of x of
        (p, q) \<Rightarrow>
          (let d = int (floorlog 2 (nat p)) - int (floorlog 2 (nat q))
           in if 2 powi d \<le> x then d else d - 1))"

definition round_half_even :: "rat \<Rightarrow> int" where
  "round_half_even r =
     (let f = \<lfloor>r\<rfloor>; d = r - of_int f
      in if d < 1 / 2 then f
         else if 1 / 2 < d then f + 1
         else if even f then f
         else f + 1)"

text \<open>
  The exponent of the doubles around \<open>a\<close> and their distance, for \<open>0 < a\<close>.
\<close>

definition binade :: "rat \<Rightarrow> int" where
  "binade a = max (floor_log2 a) (- 1022)"

definition ulp :: "rat \<Rightarrow> rat" where
  "ulp a = 2 powi (binade a - 52)"

definition round_double :: "rat \<Rightarrow> pyfloat" where
  "round_double x =
     (if x = 0 then Finite 0
      else
        (let a = \<bar>x\<bar>;
             y = of_int (round_half_even (a / ulp a)) * ulp a
         in if 2 ^ 1024 \<le> y then (if x < 0 then NegInf else PosInf)
            else Finite (if x < 0 then - y else y)))"

definition py_float :: "string \<Rightarrow> py_error + pyfloat" where
  "py_float str =
     (case parse_sign (strip str) of
        (neg, body) \<Rightarrow>
          if lower body = ''inf'' \<or> lower body = ''infinity'' then
            Inr (if neg then NegInf else PosInf)
          else if lower body = ''nan'' then Inr NaN
          else
            (case parse_number body of
               None \<Rightarrow> Inl ValueError
             | Some (ip, fp, r) \<Rightarrow>
                 (case parse_exponent r of
                    None \<Rightarrow> Inl ValueError
                  | Some e \<Rightarrow>
                      (let m = scale10 (of_nat (nat_of_digits (ip @ fp))) (e - int (length fp))
                       in Inr (round_double (if neg then - m else m))))))"

section \<open>The outside world\<close>

text \<open>
  What the driver sees of the file system and the clock. The two project directories are
  \<^verbatim>\<open>Path("...").exists()\<close>; the first one has a four-character Chinese name, written here by
  the field \<open>original_dir_exists\<close>. A cache directory is absent (\<open>None\<close>) or holds regular
  files, given by their sizes in bytes (\<^verbatim>\<open>st_size\<close>) in the order \<^verbatim>\<open>glob('**/*')\<close> yields them.
  \<open>json_file\<close> is the content of \<^verbatim>\<open>performance_comparison.json\<close>, \<open>clock\<close> what \<^verbatim>\<open>time.time()\<close>
  returns and \<open>cwd\<close> what \<^verbatim>\<open>os.getcwd()\<close> returns. Failures of the operating system
  (permissions, a full disk, a missing \<^verbatim>\<open>cargo\<close>) are outside the model.
\<close>

type_synonym run_result = "(string \<times> pyfloat) list"

record comparison_results =
  original :: run_result
  optimized :: run_result

record world =
  original_dir_exists :: bool
  optimized_dir_exists :: bool
  timstof_cache :: "nat list option"
  timstof_cache_optimized :: "nat list option"
  json_file :: "comparison_results option"
  clock :: rat
  cwd :: string

datatype version_dir = OriginalDir | OptimizedDir

record completed_process =
  returncode :: int
  stdout :: string
  stderr :: string

text \<open>What \<^verbatim>\<open>subprocess.run(..., timeout=600)\<close> does: it returns, or it raises.\<close>

datatype run_outcome = Completed completed_process | Expired

text \<open>
  The two external steps, \<^verbatim>\<open>cargo build --release\<close> (no time bound) and
  \<^verbatim>\<open>cargo run --release\<close> (bound of 600 seconds), run in a project directory. Each is an
  arbitrary function of the world it starts in and returns the world it leaves; as the
  driver runs each step at most once per directory, this covers every behaviour of the
  children that come to an end. A build that never returns (it has no time bound) is
  outside the model.
\<close>

record env =
  cargo_build :: "version_dir \<Rightarrow> world \<Rightarrow> completed_process \<times> world"
  cargo_run :: "version_dir \<Rightarrow> world \<Rightarrow> run_outcome \<times> world"

subsection \<open>Console output\<close>

text \<open>
  One element per \<^verbatim>\<open>print\<close> call. \<open>Text\<close> is a string the driver builds itself, \<open>Captured\<close>
  a captured error stream it echoes, \<open>TableRow\<close> a row of the comparison table: the
  display name, the two value columns (formatted with \<^verbatim>\<open>.3f\<close>, or \<^verbatim>\<open>N/A\<close>) and the speedup
  column (a ratio formatted with \<^verbatim>\<open>.2f\<close> followed by a suffix, or \<^verbatim>\<open>N/A\<close>). The rendering of
  a float as digits is not modelled.
\<close>

datatype cell = Num pyfloat | NA

datatype speedup_cell = Speedup pyfloat string | NoSpeedup

datatype out = Text string | Captured string | TableRow string cell cell speedup_cell

text \<open>The state the driver works on: the world, the console and \<^verbatim>\<open>self.results\<close>.\<close>

record state =
  outside :: world
  console :: "out list"
  results :: comparison_results

definition py_print :: "out \<Rightarrow> state \<Rightarrow> state" where
  "py_print l s = s\<lparr>console := console s @ [l]\<rparr>"

text \<open>Sequencing of steps that may raise: the first exception ends the sequence.\<close>

definition then_do ::
  "(state \<Rightarrow> (py_error + 'a) \<times> state) \<Rightarrow> ('a \<Rightarrow> state \<Rightarrow> (py_error + 'b) \<times> state) \<Rightarrow>
   state \<Rightarrow> (py_error + 'b) \<times> state" where
  "then_do m f s = (case m s of (Inl e, s') \<Rightarrow> (Inl e, s') | (Inr a, s') \<Rightarrow> f a s')"

section \<open>The class \<open>PerformanceComparison\<close>\<close>

text \<open>\<^verbatim>\<open>__init__\<close>: both labels start with an empty mapping.\<close>

definition init_results :: comparison_results where
  "init_results = \<lparr>original = [], optimized = []\<rparr>"

subsection \<open>\<open>clear_caches\<close>\<close>

definition clear_caches :: "state \<Rightarrow> state" where
  "clear_caches s0 =
     (let s1 = py_print (Text ''Clearing caches...'') s0;
          s2 = (if timstof_cache (outside s1) \<noteq> None then
                  py_print (Text ''  - Original cache cleared'')
                    (s1\<lparr>outside := (outside s1)\<lparr>timstof_cache := None\<rparr>\<rparr>)
                else s1);
          s3 = (if timstof_cache_optimized (outside s2) \<noteq> None then
                  py_print (Text ''  - Optimized cache cleared'')
                    (s2\<lparr>outside := (outside s2)\<lparr>timstof_cache_optimized := None\<rparr>\<rparr>)
                else s2)
      in s3)"

subsection \<open>\<open>run_version\<close>: the parsing loop\<close>

text \<open>\<^verbatim>\<open>line.split(':')[-1].strip().split()[0]\<close>\<close>

definition time_str :: "string \<Rightarrow> py_error + string" where
  "time_str line =
     (case py_last (py_split (CHR '':'') line) of
        Inl e \<Rightarrow> Inl e
      | Inr seg \<Rightarrow> py_first (py_split_ws (strip seg)))"

text \<open>
  The two statements of a \<^verbatim>\<open>try\<close> block: the token, then \<^verbatim>\<open>float\<close> of it.
\<close>

definition line_value :: "string \<Rightarrow> py_error + pyfloat" where
  "line_value line =
     (case time_str line of
        Inl e \<Rightarrow> Inl e
      | Inr tok \<Rightarrow> py_float tok)"

text \<open>
  One \<^verbatim>\<open>try: ... except: pass\<close> block: the entry is stored when both statements
  succeed, and any exception leaves the mapping as it was.
\<close>

definition try_store :: "string \<Rightarrow> string \<Rightarrow> run_result \<Rightarrow> run_result" where
  "try_store key line timings =
     (case line_value line of
        Inl e \<Rightarrow> timings
      | Inr v \<Rightarrow> AList.update key v timings)"

text \<open>The body of \<^verbatim>\<open>for line in output_lines\<close>.\<close>

definition scan_line :: "string \<Rightarrow> run_result \<Rightarrow> run_result" where
  "scan_line line timings =
     (if py_in ''cache loading time'' (lower line) then try_store ''cache_loading'' line timings
      else if py_in ''cache saving time'' (lower line) then try_store ''cache_saving'' line timings
      else if py_in ''raw data reading time'' (lower line) then try_store ''raw_reading'' line timings
      else if py_in ''total data preparation time'' (lower line) then
        try_store ''total_preparation'' line timings
      else timings)"

definition parse_output :: "string \<Rightarrow> run_result" where
  "parse_output out_text = fold scan_line (py_split (CHR 0x0A) out_text) []"

subsection \<open>\<open>run_version\<close>\<close>

definition run_version ::
  "env \<Rightarrow> version_dir \<Rightarrow> string \<Rightarrow> state \<Rightarrow> (py_error + run_result option) \<times> state" where
  "run_version e version_dir version_name s0 =
     (let s1 = py_print (Text (CHR 0x0A # ''Running '' @ version_name @ '' version...'')) s0;
          s2 = py_print (Text (replicate 50 (CHR ''=''))) s1;
          s3 = py_print (Text (''Building '' @ version_name @ ''...'')) s2
      in case cargo_build e version_dir (outside s3) of
           (build_result, w1) \<Rightarrow>
             (let s4 = s3\<lparr>outside := w1\<rparr>
              in if returncode build_result \<noteq> 0 then
                   (Inr None,
                    py_print (Captured (stderr build_result))
                      (py_print (Text (''Build failed for '' @ version_name @ '':'')) s4))
                 else
                   (let start_time = clock (outside s4)
                    in case cargo_run e version_dir (outside s4) of
                         (Expired, w2) \<Rightarrow> (Inl TimeoutExpired, s4\<lparr>outside := w2\<rparr>)
                       | (Completed result, w2) \<Rightarrow>
                           (let s5 = s4\<lparr>outside := w2\<rparr>;
                                total_time = clock (outside s5) - start_time
                            in if returncode result \<noteq> 0 then
                                 (Inr None,
                                  py_print (Captured (stderr result))
                                    (py_print
                                       (Text (''Execution failed for '' @ version_name @ '':'')) s5))
                               else
                                 (let timings = parse_output (stdout result);
                                      timings' =
                                        AList.update ''total_execution'' (Finite total_time) timings;
                                      cache_dir =
                                        (if version_name = ''original'' then timstof_cache (outside s5)
                                         else timstof_cache_optimized (outside s5));
                                      timings'' =
                                        (case cache_dir of
                                           None \<Rightarrow> timings'
                                         | Some sizes \<Rightarrow>
                                             AList.update ''cache_size_mb''
                                               (Finite (of_nat (sum_list sizes) / (1024 * 1024)))
                                               timings')
                                  in (Inr (Some timings''), s5))))))"

subsection \<open>\<open>compare_results\<close>\<close>

definition metrics :: "(string \<times> string) list" where
  "metrics =
     [(''Cache Loading'', ''cache_loading''),
      (''Cache Saving'', ''cache_saving''),
      (''Raw Data Reading'', ''raw_reading''),
      (''Total Preparation'', ''total_preparation''),
      (''Total Execution'', ''total_execution''),
      (''Cache Size (MB)'', ''cache_size_mb'')]"

text \<open>\<^verbatim>\<open>d.get(key, 0)\<close>\<close>

definition get_or_zero :: "run_result \<Rightarrow> string \<Rightarrow> pyfloat" where
  "get_or_zero d key = (case map_of d key of None \<Rightarrow> Finite 0 | Some v \<Rightarrow> v)"

text \<open>The body of \<^verbatim>\<open>for display_name, key in metrics\<close>.\<close>

definition compare_metric :: "string \<times> string \<Rightarrow> state \<Rightarrow> (py_error + unit) \<times> state" where
  "compare_metric m s =
     (case m of
        (display_name, key) \<Rightarrow>
          (let orig_val = get_or_zero (original (results s)) key;
               opt_val = get_or_zero (optimized (results s)) key
           in if gt_zero orig_val \<and> gt_zero opt_val then
                (if key = ''cache_size_mb'' then
                   (case py_truediv orig_val opt_val of
                      Inl e \<Rightarrow> (Inl e, s)
                    | Inr speedup \<Rightarrow>
                        (Inr (),
                         py_print
                           (TableRow display_name (Num orig_val) (Num opt_val)
                              (Speedup speedup ''x smaller'')) s))
                 else
                   (case py_truediv orig_val opt_val of
                      Inl e \<Rightarrow> (Inl e, s)
                    | Inr speedup \<Rightarrow>
                        (Inr (),
                         py_print
                           (TableRow display_name (Num orig_val) (Num opt_val)
                              (Speedup speedup ''x faster'')) s)))
              else if gt_zero orig_val then
                (Inr (), py_print (TableRow display_name (Num orig_val) NA NoSpeedup) s)
              else if gt_zero opt_val then
                (Inr (), py_print (TableRow display_name NA (Num opt_val) NoSpeedup) s)
              else (Inr (), s)))"

fun for_metrics :: "(string \<times> string) list \<Rightarrow> state \<Rightarrow> (py_error + unit) \<times> state" where
  "for_metrics [] s = (Inr (), s)"
| "for_metrics (m # ms) s =
     (case compare_metric m s of
        (Inl e, s') \<Rightarrow> (Inl e, s')
      | (Inr u, s') \<Rightarrow> for_metrics ms s')"

definition ljust :: "nat \<Rightarrow> string \<Rightarrow> string" where
  "ljust n s = s @ replicate (n - length s) (CHR '' '')"

definition table_header :: string where
  "table_header =
     CHR 0x0A # ljust 20 ''Metric'' @ '' '' @ ljust 15 ''Original'' @ '' '' @
     ljust 15 ''Optimized'' @ '' '' @ ljust 10 ''Speedup''"

definition compare_results :: "state \<Rightarrow> (py_error + unit) \<times> state" where
  "compare_results s0 =
     (let s1 = py_print (Text (CHR 0x0A # replicate 60 (CHR ''=''))) s0;
          s2 = py_print (Text ''PERFORMANCE COMPARISON RESULTS'') s1;
          s3 = py_print (Text (replicate 60 (CHR ''=''))) s2;
          s4 = py_print (Text table_header) s3;
          s5 = py_print (Text (replicate 60 (CHR ''-''))) s4
      in for_metrics metrics s5)"

subsection \<open>\<open>run_comparison\<close>\<close>

text \<open>The names of the two project directories, as bytes of UTF-8.\<close>

definition original_dir_name :: string where
  "original_dir_name =
     [CHR 0xE5, CHR 0x8E, CHR 0x9F, CHR 0xE5, CHR 0xA7, CHR 0x8B,
      CHR 0xE7, CHR 0x89, CHR 0x88, CHR 0xE6, CHR 0x9C, CHR 0xAC]"

definition optimized_dir_name :: string where
  "optimized_dir_name = ''optimized_version''"

text \<open>
  The method is a sequence of six blocks, each given its own name here. The first one
  (the two banner lines and the optional first clearing) cannot raise.
\<close>

definition start_step :: "bool \<Rightarrow> state \<Rightarrow> state" where
  "start_step clear_cache_first s0 =
     (let s1 = py_print (Text ''Starting Performance Comparison'') s0;
          s2 = py_print (Text (replicate 60 (CHR ''=''))) s1
      in if clear_cache_first then clear_caches s2 else s2)"

text \<open>\<^verbatim>\<open>if original_results:\<close> is false for \<^verbatim>\<open>None\<close> and for an empty mapping.\<close>

definition run_original_step :: "env \<Rightarrow> state \<Rightarrow> (py_error + unit) \<times> state" where
  "run_original_step e s =
     (if original_dir_exists (outside s) then
        then_do (run_version e OriginalDir ''original'')
          (\<lambda>original_results s'.
             (Inr (),
              case original_results of
                None \<Rightarrow> s'
              | Some r \<Rightarrow> if r \<noteq> [] then s'\<lparr>results := (results s')\<lparr>original := r\<rparr>\<rparr> else s'))
          s
      else
        (Inr (),
         py_print
           (Text (''Warning: Original version directory not found: '' @ original_dir_name)) s))"

definition clear_between_step :: "bool \<Rightarrow> state \<Rightarrow> state" where
  "clear_between_step clear_cache_first s =
     (if clear_cache_first then clear_caches s else s)"

definition run_optimized_step :: "env \<Rightarrow> state \<Rightarrow> (py_error + unit) \<times> state" where
  "run_optimized_step e s =
     (if optimized_dir_exists (outside s) then
        then_do (run_version e OptimizedDir ''optimized'')
          (\<lambda>optimized_results s'.
             (Inr (),
              case optimized_results of
                None \<Rightarrow> s'
              | Some r \<Rightarrow> if r \<noteq> [] then s'\<lparr>results := (results s')\<lparr>optimized := r\<rparr>\<rparr> else s'))
          s
      else
        (Inr (),
         py_print
           (Text (''Warning: Optimized version directory not found: '' @ optimized_dir_name)) s))"

definition compare_step :: "state \<Rightarrow> (py_error + unit) \<times> state" where
  "compare_step s =
     (if original (results s) \<noteq> [] \<and> optimized (results s) \<noteq> [] then compare_results s
      else (Inr (), s))"

text \<open>\<^verbatim>\<open>open(..., "w")\<close> replaces whatever the file held.\<close>

definition save_step :: "state \<Rightarrow> state" where
  "save_step s =
     py_print (Text (CHR 0x0A # ''Detailed results saved to: performance_comparison.json''))
       (s\<lparr>outside := (outside s)\<lparr>json_file := Some (results s)\<rparr>\<rparr>)"

definition run_comparison :: "env \<Rightarrow> bool \<Rightarrow> state \<Rightarrow> (py_error + unit) \<times> state" where
  "run_comparison e clear_cache_first s0 =
     then_do (run_original_step e)
       (\<lambda>u. then_do (\<lambda>s. (Inr (), clear_between_step clear_cache_first s))
          (\<lambda>u. then_do (run_optimized_step e)
             (\<lambda>u. then_do compare_step
                (\<lambda>u s. (Inr (), save_step s)))))
       (start_step clear_cache_first s0)"

section \<open>\<open>main\<close>\<close>

text \<open>
  How the program ends: \<^verbatim>\<open>sys.exit(n)\<close>, falling off the end of \<open>main\<close>, or an exception
  nobody catches (the interpreter prints a traceback and the exit status is 1).
\<close>

datatype ending = SysExit int | Returned | Uncaught py_error

fun exit_status :: "ending \<Rightarrow> int" where
  "exit_status (SysExit n) = n"
| "exit_status Returned = 0"
| "exit_status (Uncaught e) = 1"

definition usage :: "out list" where
  "usage =
     [Text ''Usage: python compare_performance.py [--no-clear]'',
      Text
        ''  --no-clear: Don't clear caches before running (use existing caches)'']"

definition main :: "env \<Rightarrow> string list \<Rightarrow> world \<Rightarrow> ending \<times> state" where
  "main e argv w =
     (let s0 = \<lparr>outside = w, console = [], results = init_results\<rparr>
      in if \<not> original_dir_exists w \<or> \<not> optimized_dir_exists w then
           (SysExit 1,
            py_print (Text (''Current directory: '' @ cwd w))
              (py_print
                 (Text ''Error: This script must be run from the accelerate_caching directory'')
                 s0))
         else
           (let clear_cache = (''--no-clear'' \<notin> set argv)
            in if ''--help'' \<in> set argv then
                 (SysExit 0, s0\<lparr>console := console s0 @ usage\<rparr>)
               else
                 (case run_comparison e clear_cache s0 of
                    (Inl err, s) \<Rightarrow> (Uncaught err, s)
                  | (Inr u, s) \<Rightarrow> (Returned, s))))"

section \<open>Notions used to state the properties\<close>

subsection \<open>The steps of a run, read off the console\<close>

text \<open>
  Each method announces itself with a line of its own, so the order of the steps can be
  read off the console: \<open>clear_caches\<close> starts with \<^verbatim>\<open>Clearing caches...\<close>, \<open>run_version\<close>
  with its \<^verbatim>\<open>Running ... version...\<close> line, the two skipped runs with their warning,
  \<open>compare_results\<close> prints its title, and the line about the saved file follows the
  writing of the record. An echoed error stream (\<open>Captured\<close>) is never taken for one of
  these lines.
\<close>

datatype step = ClearStep | RunStep string | SkipStep string | CompareStep | PersistStep

definition step_of :: "out \<Rightarrow> step list" where
  "step_of l =
     (if l = Text ''Clearing caches...'' then [ClearStep]
      else if l = Text (CHR 0x0A # ''Running original version...'') then [RunStep ''original'']
      else if l = Text (CHR 0x0A # ''Running optimized version...'') then [RunStep ''optimized'']
      else if l = Text (''Warning: Original version directory not found: '' @ original_dir_name)
        then [SkipStep ''original'']
      else if l = Text (''Warning: Optimized version directory not found: '' @ optimized_dir_name)
        then [SkipStep ''optimized'']
      else if l = Text ''PERFORMANCE COMPARISON RESULTS'' then [CompareStep]
      else if l = Text (CHR 0x0A # ''Detailed results saved to: performance_comparison.json'')
        then [PersistStep]
      else [])"

definition steps_of :: "out list \<Rightarrow> step list" where
  "steps_of ls = concat (map step_of ls)"

text \<open>What a run has added to the console.\<close>

definition emitted :: "state \<Rightarrow> state \<Rightarrow> out list" where
  "emitted s s' = drop (length (console s)) (console s')"

subsection \<open>The states in which the two labelled runs start\<close>

definition before_original :: "bool \<Rightarrow> state \<Rightarrow> state" where
  "before_original clear_cache_first s0 = start_step clear_cache_first s0"

definition before_optimized :: "env \<Rightarrow> bool \<Rightarrow> state \<Rightarrow> state" where
  "before_optimized e clear_cache_first s0 =
     clear_between_step clear_cache_first
       (snd (run_original_step e (before_original clear_cache_first s0)))"

definition before_compare :: "env \<Rightarrow> bool \<Rightarrow> state \<Rightarrow> state" where
  "before_compare e clear_cache_first s0 =
     snd (run_optimized_step e (before_optimized e clear_cache_first s0))"

text \<open>A call of \<open>run_version\<close> succeeds when it returns a Run Result.\<close>

definition succeeds :: "env \<Rightarrow> version_dir \<Rightarrow> string \<Rightarrow> state \<Rightarrow> bool" where
  "succeeds e d n s =
     (case fst (run_version e d n s) of
        Inl err \<Rightarrow> False
      | Inr None \<Rightarrow> False
      | Inr (Some r) \<Rightarrow> True)"

subsection \<open>Markers and timing entries\<close>

text \<open>The four substrings that the parsing loop looks for, in the order it tests them.\<close>

definition markers :: "string list" where
  "markers =
     [''cache loading time'', ''cache saving time'', ''raw data reading time'',
      ''total data preparation time'']"

definition has_marker :: "string \<Rightarrow> bool" where
  "has_marker text = list_ex (\<lambda>m. py_in m (lower text)) markers"

text \<open>
  The timing metrics are the metrics of the comparison table other than the size of the
  cache; the scraped ones are those that \<open>run_version\<close> reads off the output.
\<close>

definition timing_keys :: "string list" where
  "timing_keys = filter (\<lambda>k. k \<noteq> ''cache_size_mb'') (map snd metrics)"

definition scraped_keys :: "string list" where
  "scraped_keys = [''cache_loading'', ''cache_saving'', ''raw_reading'', ''total_preparation'']"

definition timing_entries :: "run_result \<Rightarrow> run_result" where
  "timing_entries r = filter (\<lambda>kv. fst kv \<in> set timing_keys) r"

subsection \<open>The rows the comparison table is to have\<close>

text \<open>
  The strictly positive value that a Run Result reports for a metric, if it reports one;
  a missing value counts as unavailable.
\<close>

definition reported :: "run_result \<Rightarrow> string \<Rightarrow> pyfloat option" where
  "reported r key =
     (case map_of r key of
        None \<Rightarrow> None
      | Some v \<Rightarrow> if gt_zero v then Some v else None)"

text \<open>Original divided by optimized, for two strictly positive values.\<close>

fun quotient :: "pyfloat \<Rightarrow> pyfloat \<Rightarrow> pyfloat" where
  "quotient (Finite a) (Finite b) = Finite (a / b)"
| "quotient (Finite a) PosInf = Finite 0"
| "quotient PosInf (Finite b) = PosInf"
| "quotient x y = NaN"

text \<open>
  What the table is to show for one metric: a ratio when both sides report a value,
  framed as faster for a timing metric and as smaller for the size; the one value, with
  the other side unavailable, when only one side reports it; nothing otherwise.
\<close>

definition expected_rows :: "comparison_results \<Rightarrow> string \<times> string \<Rightarrow> out list" where
  "expected_rows r m =
     (case m of
        (display_name, key) \<Rightarrow>
          (case (reported (original r) key, reported (optimized r) key) of
             (Some ov, Some pv) \<Rightarrow>
               [TableRow display_name (Num ov) (Num pv)
                  (Speedup (quotient ov pv)
                     (if key \<in> set timing_keys then ''x faster'' else ''x smaller''))]
           | (Some ov, None) \<Rightarrow> [TableRow display_name (Num ov) NA NoSpeedup]
           | (None, Some pv) \<Rightarrow> [TableRow display_name NA (Num pv) NoSpeedup]
           | (None, None) \<Rightarrow> []))"

text \<open>The five lines above the rows.\<close>

definition table_head :: "out list" where
  "table_head =
     [Text (CHR 0x0A # replicate 60 (CHR ''='')),
      Text ''PERFORMANCE COMPARISON RESULTS'',
      Text (replicate 60 (CHR ''='')),
      Text table_header,
      Text (replicate 60 (CHR ''-''))]"

subsection \<open>The two cache directories\<close>

definition caches :: "world \<Rightarrow> nat list option \<times> nat list option" where
  "caches w = (timstof_cache w, timstof_cache_optimized w)"

subsection \<open>Example worlds and children\<close>

definition demo_world :: world where
  "demo_world =
     \<lparr>original_dir_exists = True, optimized_dir_exists = True,
      timstof_cache = Some [1048576, 2097152], timstof_cache_optimized = None,
      json_file = None, clock = 100, cwd = ''/home/user/accelerate_caching''\<rparr>"

definition fresh :: "world \<Rightarrow> state" where
  "fresh w = \<lparr>outside = w, console = [], results = init_results\<rparr>"

definition exit_with :: "int \<Rightarrow> string \<Rightarrow> string \<Rightarrow> completed_process" where
  "exit_with rc out_text err_text = \<lparr>returncode = rc, stdout = out_text, stderr = err_text\<rparr>"

text \<open>
  Children that behave alike in both directories: the build ends as \<open>b\<close>, the run as \<open>r\<close>
  after three seconds, and neither touches the file system.
\<close>

definition demo_env :: "completed_process \<Rightarrow> run_outcome \<Rightarrow> env" where
  "demo_env b r =
     \<lparr>cargo_build = (\<lambda>d w. (b, w)),
      cargo_run = (\<lambda>d w. (r, w\<lparr>clock := clock w + 3\<rparr>))\<rparr>"

text \<open>
  Children that leave a cache behind: both builds succeed, and each run succeeds without
  printing anything and writes the cache of its own label, one megabyte in three seconds
  for the first, half a megabyte in two seconds for the second.
\<close>

definition caching_env :: env where
  "caching_env =
     \<lparr>cargo_build = (\<lambda>d w. (exit_with 0 [] [], w)),
      cargo_run =
        (\<lambda>d w.
           (Completed (exit_with 0 [] []),
            case d of
              OriginalDir \<Rightarrow> w\<lparr>timstof_cache := Some [1048576], clock := clock w + 3\<rparr>
            | OptimizedDir \<Rightarrow> w\<lparr>timstof_cache_optimized := Some [524288], clock := clock w + 2\<rparr>))\<rparr>"

text \<open>Two Run Results: both report the loading time, only the first the size.\<close>

definition demo_results :: comparison_results where
  "demo_results =
     \<lparr>original = [(''cache_loading'', Finite (25 / 2)), (''cache_size_mb'', Finite 3)],
      optimized = [(''cache_loading'', Finite (5 / 2))]\<rparr>"

section \<open>Basic facts about the model\<close>

subsection \<open>The four outcomes of \<open>run_version\<close>\<close>

lemma py_print_simps [simp]:
  "console (py_print l s) = console s @ [l]"
  "outside (py_print l s) = outside s"
  "results (py_print l s) = results s"
  by (simp_all add: py_print_def)

lemma then_do_alt:
  "then_do m f s =
     (case fst (m s) of Inl err \<Rightarrow> (Inl err, snd (m s)) | Inr a \<Rightarrow> f a (snd (m s)))"
  by (simp add: then_do_def case_prod_beta)

lemma run_version_build_failed:
  assumes "returncode (fst (cargo_build e d (outside s))) \<noteq> 0"
  shows "run_version e d n s =
     (Inr None,
      s\<lparr>outside := snd (cargo_build e d (outside s)),
        console := console s @
          [Text (CHR 0x0A # ''Running '' @ n @ '' version...''),
           Text (replicate 50 (CHR ''='')),
           Text (''Building '' @ n @ ''...''),
           Text (''Build failed for '' @ n @ '':''),
           Captured (stderr (fst (cargo_build e d (outside s))))]\<rparr>)"
  using assms by (simp add: run_version_def Let_def py_print_def case_prod_beta)

lemma run_version_expired:
  assumes "returncode (fst (cargo_build e d (outside s))) = 0"
    and "fst (cargo_run e d (snd (cargo_build e d (outside s)))) = Expired"
  shows "run_version e d n s =
     (Inl TimeoutExpired,
      s\<lparr>outside := snd (cargo_run e d (snd (cargo_build e d (outside s)))),
        console := console s @
          [Text (CHR 0x0A # ''Running '' @ n @ '' version...''),
           Text (replicate 50 (CHR ''='')),
           Text (''Building '' @ n @ ''...'')]\<rparr>)"
  using assms by (simp add: run_version_def Let_def py_print_def case_prod_beta)

lemma run_version_run_failed:
  assumes "returncode (fst (cargo_build e d (outside s))) = 0"
    and "fst (cargo_run e d (snd (cargo_build e d (outside s)))) = Completed p"
    and "returncode p \<noteq> 0"
  shows "run_version e d n s =
     (Inr None,
      s\<lparr>outside := snd (cargo_run e d (snd (cargo_build e d (outside s)))),
        console := console s @
          [Text (CHR 0x0A # ''Running '' @ n @ '' version...''),
           Text (replicate 50 (CHR ''='')),
           Text (''Building '' @ n @ ''...''),
           Text (''Execution failed for '' @ n @ '':''),
           Captured (stderr p)]\<rparr>)"
  using assms by (simp add: run_version_def Let_def py_print_def case_prod_beta)

lemma run_version_ok:
  assumes "returncode (fst (cargo_build e d (outside s))) = 0"
    and "fst (cargo_run e d (snd (cargo_build e d (outside s)))) = Completed p"
    and "returncode p = 0"
  shows "run_version e d n s =
     (Inr (Some
        (let w1 = snd (cargo_build e d (outside s));
             w2 = snd (cargo_run e d w1);
             timings = AList.update ''total_execution'' (Finite (clock w2 - clock w1))
                         (parse_output (stdout p))
         in case (if n = ''original'' then timstof_cache w2 else timstof_cache_optimized w2) of
              None \<Rightarrow> timings
            | Some sizes \<Rightarrow>
                AList.update ''cache_size_mb''
                  (Finite (of_nat (sum_list sizes) / (1024 * 1024))) timings)),
      s\<lparr>outside := snd (cargo_run e d (snd (cargo_build e d (outside s)))),
        console := console s @
          [Text (CHR 0x0A # ''Running '' @ n @ '' version...''),
           Text (replicate 50 (CHR ''='')),
           Text (''Building '' @ n @ ''...'')]\<rparr>)"
  using assms by (simp add: run_version_def Let_def py_print_def case_prod_beta split: option.splits)

lemma run_version_results [simp]: "results (snd (run_version e d n s)) = results s"
proof (cases "returncode (fst (cargo_build e d (outside s))) = 0")
  case False
  then show ?thesis by (simp add: run_version_build_failed)
next
  case True
  show ?thesis
  proof (cases "fst (cargo_run e d (snd (cargo_build e d (outside s))))")
    case Expired
    with True show ?thesis by (simp add: run_version_expired)
  next
    case (Completed p)
    with True show ?thesis
      by (cases "returncode p = 0") (simp_all add: run_version_ok run_version_run_failed)
  qed
qed

lemma run_version_raises_iff:
  "fst (run_version e d n s) = Inl err \<longleftrightarrow>
     err = TimeoutExpired \<and> returncode (fst (cargo_build e d (outside s))) = 0 \<and>
     fst (cargo_run e d (snd (cargo_build e d (outside s)))) = Expired"
proof (cases "returncode (fst (cargo_build e d (outside s))) = 0")
  case False
  then show ?thesis by (simp add: run_version_build_failed)
next
  case True
  show ?thesis
  proof (cases "fst (cargo_run e d (snd (cargo_build e d (outside s))))")
    case Expired
    with True show ?thesis by (auto simp add: run_version_expired)
  next
    case (Completed p)
    with True show ?thesis
      by (cases "returncode p = 0") (simp_all add: run_version_ok run_version_run_failed)
  qed
qed

subsection \<open>An exception of the first run ends the program\<close>

lemma run_original_step_raises:
  assumes "original_dir_exists (outside s)"
    and "run_version e OriginalDir ''original'' s = (Inl err, s')"
  shows "run_original_step e s = (Inl err, s')"
  using assms by (simp add: run_original_step_def then_do_def)

lemma run_comparison_raises_first:
  assumes "run_original_step e (start_step c s0) = (Inl err, s')"
  shows "run_comparison e c s0 = (Inl err, s')"
  using assms by (simp add: run_comparison_def then_do_def)

lemma main_runs:
  assumes "original_dir_exists w" "optimized_dir_exists w" "''--help'' \<notin> set argv"
  shows "main e argv w =
     (case run_comparison e (''--no-clear'' \<notin> set argv) (fresh w) of
        (Inl err, s) \<Rightarrow> (Uncaught err, s)
      | (Inr u, s) \<Rightarrow> (Returned, s))"
  using assms by (simp add: main_def fresh_def)

subsection \<open>Frames of the steps\<close>

lemma clear_caches_frame [simp]:
  "results (clear_caches s) = results s"
  "original_dir_exists (outside (clear_caches s)) = original_dir_exists (outside s)"
  "optimized_dir_exists (outside (clear_caches s)) = optimized_dir_exists (outside s)"
  "json_file (outside (clear_caches s)) = json_file (outside s)"
  "clock (outside (clear_caches s)) = clock (outside s)"
  by (simp_all add: clear_caches_def Let_def)

lemma start_step_frame [simp]:
  "results (start_step c s) = results s"
  "original_dir_exists (outside (start_step c s)) = original_dir_exists (outside s)"
  "optimized_dir_exists (outside (start_step c s)) = optimized_dir_exists (outside s)"
  "json_file (outside (start_step c s)) = json_file (outside s)"
  by (simp_all add: start_step_def Let_def)

lemma clear_between_step_frame [simp]:
  "results (clear_between_step c s) = results s"
  "original_dir_exists (outside (clear_between_step c s)) = original_dir_exists (outside s)"
  "optimized_dir_exists (outside (clear_between_step c s)) = optimized_dir_exists (outside s)"
  "json_file (outside (clear_between_step c s)) = json_file (outside s)"
  by (simp_all add: clear_between_step_def)

lemma run_version_outside:
  "outside (snd (run_version e d n s)) =
     (if returncode (fst (cargo_build e d (outside s))) \<noteq> 0 then snd (cargo_build e d (outside s))
      else snd (cargo_run e d (snd (cargo_build e d (outside s)))))"
proof (cases "returncode (fst (cargo_build e d (outside s))) = 0")
  case False
  then show ?thesis by (simp add: run_version_build_failed)
next
  case True
  show ?thesis
  proof (cases "fst (cargo_run e d (snd (cargo_build e d (outside s))))")
    case Expired
    with True show ?thesis by (simp add: run_version_expired)
  next
    case (Completed p)
    with True show ?thesis
      by (cases "returncode p = 0") (simp_all add: run_version_ok run_version_run_failed)
  qed
qed

lemma py_truediv_positive: "gt_zero y \<Longrightarrow> \<exists>q. py_truediv x y = Inr q"
  by (cases x; cases y) auto

lemma compare_metric_frame [simp]:
  "fst (compare_metric m s) = Inr ()"
  "results (snd (compare_metric m s)) = results s"
  "outside (snd (compare_metric m s)) = outside s"
proof -
  obtain dn key where m: "m = (dn, key)" by (cases m)
  let ?o = "get_or_zero (original (results s)) key"
  let ?p = "get_or_zero (optimized (results s)) key"
  show "fst (compare_metric m s) = Inr ()"
  proof (cases "gt_zero ?p")
    case True
    then obtain q where "py_truediv ?o ?p = Inr q" using py_truediv_positive by blast
    then show ?thesis by (auto simp add: compare_metric_def m Let_def)
  next
    case False
    then show ?thesis by (simp add: compare_metric_def m Let_def)
  qed
  show "results (snd (compare_metric m s)) = results s"
    by (simp add: compare_metric_def m Let_def split: sum.splits)
  show "outside (snd (compare_metric m s)) = outside s"
    by (simp add: compare_metric_def m Let_def split: sum.splits)
qed

lemma for_metrics_step:
  "for_metrics (m # ms) s = for_metrics ms (snd (compare_metric m s))"
  using compare_metric_frame(1) [of m s]
  by (cases "compare_metric m s") (simp split: sum.splits)

lemma for_metrics_ok [simp]: "fst (for_metrics ms s) = Inr ()"
  by (induction ms arbitrary: s) (simp_all only: for_metrics_step for_metrics.simps(1) fst_conv)

lemma for_metrics_results [simp]: "results (snd (for_metrics ms s)) = results s"
  by (induction ms arbitrary: s)
    (simp_all only: for_metrics_step for_metrics.simps(1) snd_conv compare_metric_frame)

lemma for_metrics_outside [simp]: "outside (snd (for_metrics ms s)) = outside s"
  by (induction ms arbitrary: s)
    (simp_all only: for_metrics_step for_metrics.simps(1) snd_conv compare_metric_frame)

lemma compare_results_frame [simp]:
  "fst (compare_results s) = Inr ()"
  "results (snd (compare_results s)) = results s"
  "outside (snd (compare_results s)) = outside s"
  by (simp_all add: compare_results_def Let_def)

lemma compare_step_frame [simp]:
  "fst (compare_step s) = Inr ()"
  "results (snd (compare_step s)) = results s"
  "outside (snd (compare_step s)) = outside s"
  by (simp_all add: compare_step_def)

lemma save_step_frame [simp]:
  "results (save_step s) = results s"
  "json_file (outside (save_step s)) = Some (results s)"
  by (simp_all add: save_step_def)

subsection \<open>The two labelled runs and the whole comparison\<close>

lemma run_original_step_unfold:
  "run_original_step e s =
     (if original_dir_exists (outside s) then
        (case fst (run_version e OriginalDir ''original'' s) of
           Inl err \<Rightarrow> (Inl err, snd (run_version e OriginalDir ''original'' s))
         | Inr None \<Rightarrow> (Inr (), snd (run_version e OriginalDir ''original'' s))
         | Inr (Some r) \<Rightarrow>
             (Inr (),
              if r \<noteq> [] then
                (snd (run_version e OriginalDir ''original'' s))
                  \<lparr>results := (results s)\<lparr>original := r\<rparr>\<rparr>
              else snd (run_version e OriginalDir ''original'' s)))
      else
        (Inr (),
         py_print
           (Text (''Warning: Original version directory not found: '' @ original_dir_name)) s))"
  by (simp add: run_original_step_def then_do_alt split: sum.splits option.splits)

lemma run_optimized_step_unfold:
  "run_optimized_step e s =
     (if optimized_dir_exists (outside s) then
        (case fst (run_version e OptimizedDir ''optimized'' s) of
           Inl err \<Rightarrow> (Inl err, snd (run_version e OptimizedDir ''optimized'' s))
         | Inr None \<Rightarrow> (Inr (), snd (run_version e OptimizedDir ''optimized'' s))
         | Inr (Some r) \<Rightarrow>
             (Inr (),
              if r \<noteq> [] then
                (snd (run_version e OptimizedDir ''optimized'' s))
                  \<lparr>results := (results s)\<lparr>optimized := r\<rparr>\<rparr>
              else snd (run_version e OptimizedDir ''optimized'' s)))
      else
        (Inr (),
         py_print
           (Text (''Warning: Optimized version directory not found: '' @ optimized_dir_name)) s))"
  by (simp add: run_optimized_step_def then_do_alt split: sum.splits option.splits)

lemma run_original_step_results:
  "optimized (results (snd (run_original_step e s))) = optimized (results s)"
  "original (results (snd (run_original_step e s))) =
     (if original_dir_exists (outside s) then
        (case fst (run_version e OriginalDir ''original'' s) of
           Inr (Some r) \<Rightarrow> if r \<noteq> [] then r else original (results s)
         | Inr None \<Rightarrow> original (results s)
         | Inl err \<Rightarrow> original (results s))
      else original (results s))"
  by (simp_all add: run_original_step_unfold split: sum.splits option.splits)

lemma run_optimized_step_results:
  "original (results (snd (run_optimized_step e s))) = original (results s)"
  "optimized (results (snd (run_optimized_step e s))) =
     (if optimized_dir_exists (outside s) then
        (case fst (run_version e OptimizedDir ''optimized'' s) of
           Inr (Some r) \<Rightarrow> if r \<noteq> [] then r else optimized (results s)
         | Inr None \<Rightarrow> optimized (results s)
         | Inl err \<Rightarrow> optimized (results s))
      else optimized (results s))"
  by (simp_all add: run_optimized_step_unfold split: sum.splits option.splits)

lemma run_original_step_raises_iff:
  "fst (run_original_step e s) = Inl err \<longleftrightarrow>
     original_dir_exists (outside s) \<and> fst (run_version e OriginalDir ''original'' s) = Inl err"
  by (simp add: run_original_step_unfold split: sum.splits option.splits)

lemma run_optimized_step_raises_iff:
  "fst (run_optimized_step e s) = Inl err \<longleftrightarrow>
     optimized_dir_exists (outside s) \<and> fst (run_version e OptimizedDir ''optimized'' s) = Inl err"
  by (simp add: run_optimized_step_unfold split: sum.splits option.splits)

lemma run_comparison_unfold:
  "run_comparison e c s0 =
     (case fst (run_original_step e (before_original c s0)) of
        Inl err \<Rightarrow> (Inl err, snd (run_original_step e (before_original c s0)))
      | Inr u \<Rightarrow>
          (case fst (run_optimized_step e (before_optimized e c s0)) of
             Inl err \<Rightarrow> (Inl err, snd (run_optimized_step e (before_optimized e c s0)))
           | Inr u \<Rightarrow>
               (Inr (),
                save_step
                  (snd (compare_step (snd (run_optimized_step e (before_optimized e c s0))))))))"
  unfolding before_original_def before_optimized_def
  by (cases "fst (run_original_step e (start_step c s0))";
      cases "fst (run_optimized_step e
                (clear_between_step c (snd (run_original_step e (start_step c s0)))))")
    (simp_all add: run_comparison_def then_do_alt)

lemma run_comparison_completes:
  assumes "run_comparison e c s0 = (Inr u, s')"
  shows "fst (run_original_step e (before_original c s0)) = Inr ()"
    and "fst (run_optimized_step e (before_optimized e c s0)) = Inr ()"
    and "s' = save_step (snd (compare_step (snd (run_optimized_step e (before_optimized e c s0)))))"
proof -
  let ?A = "run_original_step e (before_original c s0)"
  let ?B = "run_optimized_step e (before_optimized e c s0)"
  have *: "(case fst ?A of
              Inl err \<Rightarrow> (Inl err, snd ?A)
            | Inr u \<Rightarrow>
                (case fst ?B of
                   Inl err \<Rightarrow> (Inl err, snd ?B)
                 | Inr u \<Rightarrow> (Inr (), save_step (snd (compare_step (snd ?B)))))) = (Inr u, s')"
    using assms by (simp only: run_comparison_unfold)
  show a: "fst ?A = Inr ()"
    using * by (cases "fst ?A") simp_all
  show b: "fst ?B = Inr ()"
    using * a by (cases "fst ?B") simp_all
  show "s' = save_step (snd (compare_step (snd ?B)))"
    using * a b by simp
qed

lemma run_comparison_completes_iff:
  "fst (run_comparison e c s0) = Inr () \<longleftrightarrow>
     \<not> (original_dir_exists (outside (before_original c s0)) \<and>
        fst (run_version e OriginalDir ''original'' (before_original c s0)) = Inl TimeoutExpired) \<and>
     \<not> (optimized_dir_exists (outside (before_optimized e c s0)) \<and>
        fst (run_version e OptimizedDir ''optimized'' (before_optimized e c s0)) = Inl TimeoutExpired)"
proof -
  let ?A = "run_original_step e (before_original c s0)"
  let ?B = "run_optimized_step e (before_optimized e c s0)"
  have a: "fst (run_original_step e s) = Inr () \<longleftrightarrow>
      \<not> (original_dir_exists (outside s) \<and>
         fst (run_version e OriginalDir ''original'' s) = Inl TimeoutExpired)" for s
  proof (cases "fst (run_original_step e s)")
    case (Inl err)
    then show ?thesis
      using run_original_step_raises_iff [of e s err]
        run_version_raises_iff [of e OriginalDir "''original''" s err]
      by simp
  next
    case (Inr u)
    then show ?thesis
      using run_original_step_raises_iff [of e s TimeoutExpired] by simp
  qed
  have b: "fst (run_optimized_step e s) = Inr () \<longleftrightarrow>
      \<not> (optimized_dir_exists (outside s) \<and>
         fst (run_version e OptimizedDir ''optimized'' s) = Inl TimeoutExpired)" for s
  proof (cases "fst (run_optimized_step e s)")
    case (Inl err)
    then show ?thesis
      using run_optimized_step_raises_iff [of e s err]
        run_version_raises_iff [of e OptimizedDir "''optimized''" s err]
      by simp
  next
    case (Inr u)
    then show ?thesis
      using run_optimized_step_raises_iff [of e s TimeoutExpired] by simp
  qed
  have "fst (run_comparison e c s0) = Inr () \<longleftrightarrow> fst ?A = Inr () \<and> fst ?B = Inr ()"
    by (cases "fst ?A"; cases "fst ?B") (simp_all add: run_comparison_unfold)
  then show ?thesis by (simp only: a b)
qed

lemma run_comparison_persisted:
  assumes "run_comparison e c s0 = (Inr u, s')"
  shows "json_file (outside s') = Some (results s')"
    and "results s' = results (snd (run_optimized_step e (before_optimized e c s0)))"
  using run_comparison_completes(3) [OF assms] by simp_all

subsection \<open>The example children\<close>

lemma demo_env_simps [simp]:
  "cargo_build (demo_env b r) d w = (b, w)"
  "cargo_run (demo_env b r) d w = (r, w\<lparr>clock := clock w + 3\<rparr>)"
  by (simp_all add: demo_env_def)

lemma exit_with_simps [simp]:
  "returncode (exit_with rc out_text err_text) = rc"
  "stdout (exit_with rc out_text err_text) = out_text"
  "stderr (exit_with rc out_text err_text) = err_text"
  by (simp_all add: exit_with_def)

lemma fresh_simps [simp]:
  "outside (fresh w) = w"
  "console (fresh w) = []"
  "results (fresh w) = init_results"
  by (simp_all add: fresh_def)

subsection \<open>What a successful run returns\<close>

lemma run_version_some:
  assumes "fst (run_version e d n s) = Inr (Some t)"
  obtains p where "returncode (fst (cargo_build e d (outside s))) = 0"
    and "fst (cargo_run e d (snd (cargo_build e d (outside s)))) = Completed p"
    and "returncode p = 0"
proof (cases "returncode (fst (cargo_build e d (outside s))) = 0")
  case False
  with assms show ?thesis by (simp add: run_version_build_failed)
next
  case True
  show ?thesis
  proof (cases "fst (cargo_run e d (snd (cargo_build e d (outside s))))")
    case Expired
    with True assms show ?thesis by (simp add: run_version_expired)
  next
    case (Completed p)
    with True assms that show ?thesis
      by (cases "returncode p = 0") (simp_all add: run_version_run_failed)
  qed
qed

lemma succeeds_iff: "succeeds e d n s \<longleftrightarrow> (\<exists>t. fst (run_version e d n s) = Inr (Some t))"
  by (simp add: succeeds_def split: sum.splits option.splits)

lemma run_version_some_total_execution:
  assumes "fst (run_version e d n s) = Inr (Some t)"
  shows "t \<noteq> []"
    and "map_of t ''total_execution'' =
      Some (Finite (clock (snd (cargo_run e d (snd (cargo_build e d (outside s))))) -
                    clock (snd (cargo_build e d (outside s)))))"
proof -
  from assms obtain p where p: "returncode (fst (cargo_build e d (outside s))) = 0"
    "fst (cargo_run e d (snd (cargo_build e d (outside s)))) = Completed p" "returncode p = 0"
    by (rule run_version_some)
  have t: "t =
     (let w1 = snd (cargo_build e d (outside s));
          w2 = snd (cargo_run e d w1);
          timings = AList.update ''total_execution'' (Finite (clock w2 - clock w1))
                      (parse_output (stdout p))
      in case (if n = ''original'' then timstof_cache w2 else timstof_cache_optimized w2) of
           None \<Rightarrow> timings
         | Some sizes \<Rightarrow>
             AList.update ''cache_size_mb''
               (Finite (of_nat (sum_list sizes) / (1024 * 1024))) timings)"
    using assms by (simp add: run_version_ok [OF p])
  show "t \<noteq> []"
    unfolding t by (simp add: Let_def split: option.splits)
  show "map_of t ''total_execution'' =
      Some (Finite (clock (snd (cargo_run e d (snd (cargo_build e d (outside s))))) -
                    clock (snd (cargo_build e d (outside s)))))"
    unfolding t by (simp add: Let_def update_conv' split: option.splits)
qed

lemma run_original_step_stores:
  assumes "original (results s) = []"
  shows "original (results (snd (run_original_step e s))) \<noteq> [] \<longleftrightarrow>
     original_dir_exists (outside s) \<and> succeeds e OriginalDir ''original'' s"
proof (cases "original_dir_exists (outside s)")
  case False
  with assms show ?thesis by (simp add: run_original_step_results)
next
  case True
  show ?thesis
  proof (cases "fst (run_version e OriginalDir ''original'' s)")
    case (Inl err)
    with True assms show ?thesis by (simp add: run_original_step_results succeeds_def)
  next
    case (Inr x)
    show ?thesis
    proof (cases x)
      case None
      with Inr True assms show ?thesis by (simp add: run_original_step_results succeeds_def)
    next
      case (Some t)
      with Inr have "t \<noteq> []" by (simp add: run_version_some_total_execution(1))
      with Some Inr True show ?thesis by (simp add: run_original_step_results succeeds_def)
    qed
  qed
qed

lemma run_optimized_step_stores:
  assumes "optimized (results s) = []"
  shows "optimized (results (snd (run_optimized_step e s))) \<noteq> [] \<longleftrightarrow>
     optimized_dir_exists (outside s) \<and> succeeds e OptimizedDir ''optimized'' s"
proof (cases "optimized_dir_exists (outside s)")
  case False
  with assms show ?thesis by (simp add: run_optimized_step_results)
next
  case True
  show ?thesis
  proof (cases "fst (run_version e OptimizedDir ''optimized'' s)")
    case (Inl err)
    with True assms show ?thesis by (simp add: run_optimized_step_results succeeds_def)
  next
    case (Inr x)
    show ?thesis
    proof (cases x)
      case None
      with Inr True assms show ?thesis by (simp add: run_optimized_step_results succeeds_def)
    next
      case (Some t)
      with Inr have "t \<noteq> []" by (simp add: run_version_some_total_execution(1))
      with Some Inr True show ?thesis by (simp add: run_optimized_step_results succeeds_def)
    qed
  qed
qed

lemma succeeds_ok_iff:
  "succeeds e d n s \<longleftrightarrow>
     returncode (fst (cargo_build e d (outside s))) = 0 \<and>
     (\<exists>p. fst (cargo_run e d (snd (cargo_build e d (outside s)))) = Completed p \<and>
          returncode p = 0)"
proof
  assume "succeeds e d n s"
  then obtain t where "fst (run_version e d n s) = Inr (Some t)"
    by (auto simp add: succeeds_iff)
  then show "returncode (fst (cargo_build e d (outside s))) = 0 \<and>
     (\<exists>p. fst (cargo_run e d (snd (cargo_build e d (outside s)))) = Completed p \<and>
          returncode p = 0)"
    by (rule run_version_some) blast
next
  assume "returncode (fst (cargo_build e d (outside s))) = 0 \<and>
     (\<exists>p. fst (cargo_run e d (snd (cargo_build e d (outside s)))) = Completed p \<and>
          returncode p = 0)"
  then obtain p where "returncode (fst (cargo_build e d (outside s))) = 0"
    "fst (cargo_run e d (snd (cargo_build e d (outside s)))) = Completed p" "returncode p = 0"
    by blast
  then show "succeeds e d n s"
    by (simp add: succeeds_iff run_version_ok)
qed

lemma run_original_step_outside:
  "outside (snd (run_original_step e s)) =
     (if original_dir_exists (outside s) then outside (snd (run_version e OriginalDir ''original'' s))
      else outside s)"
  by (simp add: run_original_step_unfold split: sum.splits option.splits)

lemma run_optimized_step_outside:
  "outside (snd (run_optimized_step e s)) =
     (if optimized_dir_exists (outside s) then
        outside (snd (run_version e OptimizedDir ''optimized'' s))
      else outside s)"
  by (simp add: run_optimized_step_unfold split: sum.splits option.splits)

lemma parse_output_empty [simp]: "parse_output [] = []"
  by (simp add: parse_output_def scan_line_def py_in_def lower_def)

subsection \<open>The steps announced on the console\<close>

lemma steps_of_simps [simp]:
  "steps_of [] = []"
  "steps_of (l # ls) = step_of l @ steps_of ls"
  "steps_of (ks @ ls) = steps_of ks @ steps_of ls"
  by (simp_all add: steps_of_def)

lemma step_of_no_text [simp]:
  "step_of (Captured x) = []"
  "step_of (TableRow dn a b q) = []"
  by (simp_all add: step_of_def)

lemma step_of_rule [simp]:
  "step_of (Text (replicate k (CHR ''=''))) = []"
  "step_of (Text (replicate k (CHR ''-''))) = []"
  "step_of (Text (CHR 0x0A # replicate k (CHR ''=''))) = []"
  by (cases k; simp add: step_of_def original_dir_name_def optimized_dir_name_def)+

lemma step_of_texts [simp]:
  "step_of (Text ''Clearing caches...'') = [ClearStep]"
  "step_of (Text ''  - Original cache cleared'') = []"
  "step_of (Text ''  - Optimized cache cleared'') = []"
  "step_of (Text ''Starting Performance Comparison'') = []"
  "step_of (Text (CHR 0x0A # ''Running original version...'')) = [RunStep ''original'']"
  "step_of (Text (CHR 0x0A # ''Running optimized version...'')) = [RunStep ''optimized'']"
  "step_of (Text ''Building original...'') = []"
  "step_of (Text ''Building optimized...'') = []"
  "step_of (Text ''Build failed for original:'') = []"
  "step_of (Text ''Build failed for optimized:'') = []"
  "step_of (Text ''Execution failed for original:'') = []"
  "step_of (Text ''Execution failed for optimized:'') = []"
  "step_of (Text (''Warning: Original version directory not found: '' @ original_dir_name)) =
     [SkipStep ''original'']"
  "step_of (Text (''Warning: Optimized version directory not found: '' @ optimized_dir_name)) =
     [SkipStep ''optimized'']"
  "step_of (Text ''PERFORMANCE COMPARISON RESULTS'') = [CompareStep]"
  "step_of (Text (CHR 0x0A # ''Detailed results saved to: performance_comparison.json'')) =
     [PersistStep]"
  by (simp_all add: step_of_def)

lemmas step_of_warnings [simp] = step_of_texts(13,14) [unfolded append.simps]

lemma step_of_table_header [simp]: "step_of (Text table_header) = []"
  by (simp add: step_of_def table_header_def ljust_def)

lemma emitted_eq: "console s' = console s @ new \<Longrightarrow> emitted s s' = new"
  by (simp add: emitted_def)

lemma emitted_self [simp]: "emitted s s = []"
  by (simp add: emitted_def)

lemma emitted_trans:
  assumes "console s1 = console s @ emitted s s1"
    and "console s2 = console s1 @ emitted s1 s2"
  shows "console s2 = console s @ emitted s s2"
    and "emitted s s2 = emitted s s1 @ emitted s1 s2"
proof -
  have "console s2 = console s @ (emitted s s1 @ emitted s1 s2)"
    using assms by (metis append.assoc)
  then show "emitted s s2 = emitted s s1 @ emitted s1 s2"
    by (rule emitted_eq)
  then show "console s2 = console s @ emitted s s2"
    using \<open>console s2 = console s @ (emitted s s1 @ emitted s1 s2)\<close> by simp
qed

lemma emitsI:
  assumes "console s' = console s @ new" and "steps_of new = X"
  shows "console s' = console s @ emitted s s' \<and> steps_of (emitted s s') = X"
  using assms emitted_eq [OF assms(1)] by simp

lemma emits_trans:
  assumes "console s1 = console s @ emitted s s1 \<and> steps_of (emitted s s1) = X"
    and "console s2 = console s1 @ emitted s1 s2 \<and> steps_of (emitted s1 s2) = Y"
  shows "console s2 = console s @ emitted s s2 \<and> steps_of (emitted s s2) = X @ Y"
  using assms emitted_trans [of s1 s s2] by simp

lemma clear_caches_emits:
  "console (clear_caches s) = console s @ emitted s (clear_caches s) \<and>
   steps_of (emitted s (clear_caches s)) = [ClearStep]"
proof -
  have "\<exists>new. console (clear_caches s) = console s @ new \<and> steps_of new = [ClearStep]"
    by (simp add: clear_caches_def Let_def)
  then show ?thesis using emitsI by blast
qed

lemma start_step_emits:
  "console (start_step c s) = console s @ emitted s (start_step c s) \<and>
   steps_of (emitted s (start_step c s)) = (if c then [ClearStep] else [])"
proof -
  let ?s2 = "py_print (Text (replicate 60 (CHR ''='')))
               (py_print (Text ''Starting Performance Comparison'') s)"
  have a: "console ?s2 = console s @ emitted s ?s2 \<and> steps_of (emitted s ?s2) = []"
    by (rule emitsI [where new = "[Text ''Starting Performance Comparison'',
          Text (replicate 60 (CHR ''=''))]"]) simp_all
  show ?thesis
  proof (cases c)
    case True
    then have "start_step c s = clear_caches ?s2" by (simp add: start_step_def)
    then show ?thesis
      using emits_trans [OF a clear_caches_emits [of ?s2]] True by simp
  next
    case False
    then have "start_step c s = ?s2" by (simp add: start_step_def)
    then show ?thesis using a False by simp
  qed
qed

lemma clear_between_step_emits:
  "console (clear_between_step c s) = console s @ emitted s (clear_between_step c s) \<and>
   steps_of (emitted s (clear_between_step c s)) = (if c then [ClearStep] else [])"
  using clear_caches_emits [of s] by (simp add: clear_between_step_def)

lemma run_version_emits:
  assumes "n = ''original'' \<or> n = ''optimized''"
  shows "console (snd (run_version e d n s)) = console s @ emitted s (snd (run_version e d n s)) \<and>
     steps_of (emitted s (snd (run_version e d n s))) = [RunStep n]"
proof -
  have "\<exists>new. console (snd (run_version e d n s)) = console s @ new \<and>
      steps_of new = [RunStep n]"
  proof (cases "returncode (fst (cargo_build e d (outside s))) = 0")
    case False
    then show ?thesis
      using assms by (elim disjE) (simp_all add: run_version_build_failed)
  next
    case True
    show ?thesis
    proof (cases "fst (cargo_run e d (snd (cargo_build e d (outside s))))")
      case Expired
      with True show ?thesis
        using assms by (elim disjE) (simp_all add: run_version_expired)
    next
      case (Completed p)
      with True show ?thesis
        using assms
        by (cases "returncode p = 0"; elim disjE)
          (simp_all add: run_version_ok run_version_run_failed)
    qed
  qed
  then show ?thesis using emitsI by blast
qed

lemma results_update_emits [simp]:
  "emitted s (s'\<lparr>results := r\<rparr>) = emitted s s'"
  by (simp add: emitted_def)

lemma run_original_step_emits:
  "console (snd (run_original_step e s)) =
     console s @ emitted s (snd (run_original_step e s)) \<and>
   steps_of (emitted s (snd (run_original_step e s))) =
     [if original_dir_exists (outside s) then RunStep ''original'' else SkipStep ''original'']"
proof (cases "original_dir_exists (outside s)")
  case True
  then show ?thesis
    using run_version_emits [of "''original''" e OriginalDir s]
    by (simp add: run_original_step_unfold split: sum.splits option.splits)
next
  case False
  then show ?thesis
    using emitsI [of "snd (run_original_step e s)" s
        "[Text (''Warning: Original version directory not found: '' @ original_dir_name)]"
        "[SkipStep ''original'']"]
    by (simp add: run_original_step_unfold)
qed

lemma run_optimized_step_emits:
  "console (snd (run_optimized_step e s)) =
     console s @ emitted s (snd (run_optimized_step e s)) \<and>
   steps_of (emitted s (snd (run_optimized_step e s))) =
     [if optimized_dir_exists (outside s) then RunStep ''optimized'' else SkipStep ''optimized'']"
proof (cases "optimized_dir_exists (outside s)")
  case True
  then show ?thesis
    using run_version_emits [of "''optimized''" e OptimizedDir s]
    by (simp add: run_optimized_step_unfold split: sum.splits option.splits)
next
  case False
  then show ?thesis
    using emitsI [of "snd (run_optimized_step e s)" s
        "[Text (''Warning: Optimized version directory not found: '' @ optimized_dir_name)]"
        "[SkipStep ''optimized'']"]
    by (simp add: run_optimized_step_unfold)
qed

lemma compare_metric_emits:
  "console (snd (compare_metric m s)) = console s @ emitted s (snd (compare_metric m s)) \<and>
   steps_of (emitted s (snd (compare_metric m s))) = []"
proof -
  have "\<exists>new. console (snd (compare_metric m s)) = console s @ new \<and> steps_of new = []"
    by (cases m) (simp add: compare_metric_def Let_def split: sum.splits)
  then show ?thesis using emitsI by blast
qed

lemma for_metrics_emits:
  "console (snd (for_metrics ms s)) = console s @ emitted s (snd (for_metrics ms s)) \<and>
   steps_of (emitted s (snd (for_metrics ms s))) = []"
proof (induction ms arbitrary: s)
  case Nil
  show ?case by simp
next
  case (Cons m ms)
  show ?case
    using emits_trans [OF compare_metric_emits [of m s] Cons.IH [of "snd (compare_metric m s)"]]
    by (simp only: for_metrics_step append_Nil)
qed

lemma compare_results_emits:
  "console (snd (compare_results s)) = console s @ emitted s (snd (compare_results s)) \<and>
   steps_of (emitted s (snd (compare_results s))) = [CompareStep]"
proof -
  let ?s5 = "py_print (Text (replicate 60 (CHR ''-'')))
     (py_print (Text table_header)
        (py_print (Text (replicate 60 (CHR ''='')))
           (py_print (Text ''PERFORMANCE COMPARISON RESULTS'')
              (py_print (Text (CHR 0x0A # replicate 60 (CHR ''=''))) s))))"
  have a: "console ?s5 = console s @ emitted s ?s5 \<and> steps_of (emitted s ?s5) = [CompareStep]"
    by (rule emitsI [where new = "[Text (CHR 0x0A # replicate 60 (CHR ''='')),
          Text ''PERFORMANCE COMPARISON RESULTS'', Text (replicate 60 (CHR ''='')),
          Text table_header, Text (replicate 60 (CHR ''-''))]"]) simp_all
  have "compare_results s = for_metrics metrics ?s5"
    by (simp add: compare_results_def Let_def)
  then show ?thesis
    using emits_trans [OF a for_metrics_emits [of metrics ?s5]] by simp
qed

lemma compare_step_emits:
  "console (snd (compare_step s)) = console s @ emitted s (snd (compare_step s)) \<and>
   steps_of (emitted s (snd (compare_step s))) =
     (if original (results s) \<noteq> [] \<and> optimized (results s) \<noteq> [] then [CompareStep] else [])"
  using compare_results_emits [of s] by (simp add: compare_step_def)

lemma save_step_emits:
  "console (save_step s) = console s @ emitted s (save_step s) \<and>
   steps_of (emitted s (save_step s)) = [PersistStep]"
  by (rule emitsI
      [where new = "[Text (CHR 0x0A # ''Detailed results saved to: performance_comparison.json'')]"])
    (simp_all add: save_step_def)

subsection \<open>Running without clearing\<close>

lemma ClearStep_step_of: "ClearStep \<in> set (step_of l) \<longleftrightarrow> l = Text ''Clearing caches...''"
  by (simp add: step_of_def)

lemma ClearStep_steps_of:
  "ClearStep \<in> set (steps_of ls) \<longleftrightarrow> Text ''Clearing caches...'' \<in> set ls"
  by (induction ls) (auto simp add: ClearStep_step_of)

lemma run_comparison_no_clear:
  "console (snd (run_comparison e False s0)) =
     console s0 @ emitted s0 (snd (run_comparison e False s0)) \<and>
   ClearStep \<notin> set (steps_of (emitted s0 (snd (run_comparison e False s0))))"
proof -
  let ?s1 = "before_original False s0"
  let ?s2 = "snd (run_original_step e ?s1)"
  let ?s3 = "before_optimized e False s0"
  let ?s4 = "snd (run_optimized_step e ?s3)"
  let ?s5 = "snd (compare_step ?s4)"
  have 3: "?s3 = clear_between_step False ?s2"
    by (simp add: before_optimized_def)
  note t1 = start_step_emits [of False s0, folded before_original_def]
  note t2 = emits_trans [OF t1 run_original_step_emits [of e ?s1]]
  note t3 = emits_trans [OF t2 clear_between_step_emits [of False ?s2, folded 3]]
  note t4 = emits_trans [OF t3 run_optimized_step_emits [of e ?s3]]
  note t5 = emits_trans [OF t4 compare_step_emits [of ?s4]]
  note t6 = emits_trans [OF t5 save_step_emits [of ?s5]]
  show ?thesis
  proof (cases "fst (run_original_step e ?s1)")
    case (Inl err)
    then have "snd (run_comparison e False s0) = ?s2"
      by (simp add: run_comparison_unfold)
    then show ?thesis using t2 by simp
  next
    case a: (Inr u)
    show ?thesis
    proof (cases "fst (run_optimized_step e ?s3)")
      case (Inl err)
      with a have "snd (run_comparison e False s0) = ?s4"
        by (simp add: run_comparison_unfold)
      then show ?thesis using t4 by simp
    next
      case (Inr v)
      with a have "snd (run_comparison e False s0) = save_step ?s5"
        by (simp add: run_comparison_unfold)
      then show ?thesis using t6 by simp
    qed
  qed
qed

lemma caches_frame [simp]:
  "caches (w\<lparr>json_file := j\<rparr>) = caches w"
  "caches (w\<lparr>clock := t\<rparr>) = caches w"
  by (simp_all add: caches_def)

lemma run_version_caches:
  assumes "\<forall>d w'. caches w' = caches w \<longrightarrow>
      caches (snd (cargo_build e d w')) = caches w \<and> caches (snd (cargo_run e d w')) = caches w"
    and "caches (outside s) = caches w"
  shows "caches (outside (snd (run_version e d n s))) = caches w"
  using assms by (simp add: run_version_outside)

lemma run_comparison_no_clear_caches:
  assumes H: "\<forall>d w'. caches w' = caches w \<longrightarrow>
      caches (snd (cargo_build e d w')) = caches w \<and> caches (snd (cargo_run e d w')) = caches w"
    and s0: "caches (outside s0) = caches w"
  shows "caches (outside (snd (run_comparison e False s0))) = caches w"
proof -
  let ?s1 = "before_original False s0"
  let ?s2 = "snd (run_original_step e ?s1)"
  let ?s3 = "before_optimized e False s0"
  let ?s4 = "snd (run_optimized_step e ?s3)"
  let ?s5 = "snd (compare_step ?s4)"
  have 1: "caches (outside ?s1) = caches w"
    using s0 by (simp add: before_original_def start_step_def)
  have 2: "caches (outside ?s2) = caches w"
    using 1 run_version_caches [OF H 1] by (simp add: run_original_step_outside)
  have 3: "caches (outside ?s3) = caches w"
    using 2 by (simp add: before_optimized_def clear_between_step_def)
  have 4: "caches (outside ?s4) = caches w"
    using 3 run_version_caches [OF H 3] by (simp add: run_optimized_step_outside)
  have 5: "caches (outside (save_step ?s5)) = caches w"
    using 4 by (simp add: save_step_def)
  show ?thesis
  proof (cases "fst (run_original_step e ?s1)")
    case (Inl err)
    then have "snd (run_comparison e False s0) = ?s2"
      by (simp add: run_comparison_unfold)
    then show ?thesis using 2 by simp
  next
    case a: (Inr u)
    show ?thesis
    proof (cases "fst (run_optimized_step e ?s3)")
      case (Inl err)
      with a have "snd (run_comparison e False s0) = ?s4"
        by (simp add: run_comparison_unfold)
      then show ?thesis using 4 by simp
    next
      case (Inr v)
      with a have "snd (run_comparison e False s0) = save_step ?s5"
        by (simp add: run_comparison_unfold)
      then show ?thesis using 5 by simp
    qed
  qed
qed

lemma main_unfold:
  "snd (main e argv w) =
     (if \<not> original_dir_exists w \<or> \<not> optimized_dir_exists w then
        (fresh w)\<lparr>console :=
          [Text ''Error: This script must be run from the accelerate_caching directory'',
           Text (''Current directory: '' @ cwd w)]\<rparr>
      else if ''--help'' \<in> set argv then (fresh w)\<lparr>console := usage\<rparr>
      else snd (run_comparison e (''--no-clear'' \<notin> set argv) (fresh w)))"
  by (simp add: main_def Let_def fresh_def split: prod.splits sum.splits)

subsection \<open>Splitting and stripping\<close>

lemma py_split_nonempty [simp]: "py_split c s \<noteq> []"
  by (induction s) (simp_all split: list.splits)

lemma py_split_no_sep: "c \<notin> set s \<Longrightarrow> py_split c s = [s]"
  by (induction s) auto

lemma py_split_append: "py_split c (a @ c # b) = py_split c a @ py_split c b"
proof (induction a)
  case Nil
  show ?case by simp
next
  case (Cons x a)
  obtain p ps where p: "py_split c a = p # ps"
    using py_split_nonempty [of c a] by (cases "py_split c a") auto
  show ?case using Cons p by simp
qed

lemma py_last_split:
  assumes "c \<notin> set seg"
  shows "py_last (py_split c (pre @ c # seg)) = Inr seg"
  using assms by (simp add: py_last_def py_split_append py_split_no_sep)

lemma split_ws_spaces:
  "\<forall>c\<in>set sp. is_space c \<Longrightarrow> split_ws cur sp = (if cur = [] then [] else [cur])"
  by (induction sp arbitrary: cur) simp_all

lemma split_ws_leading:
  "\<forall>c\<in>set sp. is_space c \<Longrightarrow> split_ws [] (sp @ s) = split_ws [] s"
  by (induction sp) simp_all

lemma split_ws_trailing:
  "\<forall>c\<in>set sp. is_space c \<Longrightarrow> split_ws cur (s @ sp) = split_ws cur s"
proof (induction s arbitrary: cur)
  case Nil
  then show ?case by (simp add: split_ws_spaces)
next
  case (Cons x s)
  then show ?case by simp
qed

lemma strip_decompose:
  "\<exists>a b. s = a @ strip s @ b \<and> (\<forall>c\<in>set a. is_space c) \<and> (\<forall>c\<in>set b. is_space c)"
proof -
  let ?a = "takeWhile is_space s"
  let ?s1 = "dropWhile is_space s"
  let ?b = "rev (takeWhile is_space (rev ?s1))"
  have "rev ?s1 = takeWhile is_space (rev ?s1) @ dropWhile is_space (rev ?s1)"
    by simp
  then have "?s1 = rev (dropWhile is_space (rev ?s1)) @ ?b"
    by (metis rev_append rev_rev_ident)
  then have "s = ?a @ strip s @ ?b"
    by (metis strip_def takeWhile_dropWhile_id)
  moreover have "\<forall>c\<in>set ?a. is_space c"
    by (auto dest: set_takeWhileD)
  moreover have "\<forall>c\<in>set ?b. is_space c"
    by (auto dest: set_takeWhileD)
  ultimately show ?thesis by blast
qed

lemma py_split_ws_strip: "py_split_ws (strip s) = py_split_ws s"
proof -
  obtain a b where s: "s = a @ strip s @ b"
    and a: "\<forall>c\<in>set a. is_space c" and b: "\<forall>c\<in>set b. is_space c"
    using strip_decompose by blast
  have "py_split_ws s = split_ws [] (a @ (strip s @ b))"
    using s by (simp add: py_split_ws_def)
  also have "\<dots> = split_ws [] (strip s @ b)"
    using a by (rule split_ws_leading)
  also have "\<dots> = split_ws [] (strip s)"
    using b by (rule split_ws_trailing)
  finally show ?thesis by (simp add: py_split_ws_def)
qed

lemma split_ws_token:
  "\<forall>c\<in>set tok. \<not> is_space c \<Longrightarrow> split_ws cur (tok @ r) = split_ws (cur @ tok) r"
  by (induction tok arbitrary: cur) simp_all

lemma py_first_split_ws:
  assumes "\<forall>c\<in>set ws. is_space c" and "tok \<noteq> []" and "\<forall>c\<in>set tok. \<not> is_space c"
    and "rest = [] \<or> is_space (hd rest)"
  shows "py_first (py_split_ws (ws @ tok @ rest)) = Inr tok"
proof -
  have "py_split_ws (ws @ tok @ rest) = split_ws tok rest"
    using assms(1,3) by (simp add: py_split_ws_def split_ws_leading split_ws_token)
  moreover have "py_first (split_ws tok rest) = Inr tok"
    using assms(2,4) by (cases rest) (simp_all add: py_first_def)
  ultimately show ?thesis by simp
qed

lemma time_str_token:
  assumes "line = pre @ CHR '':'' # ws @ tok @ rest"
    and "CHR '':'' \<notin> set (ws @ tok @ rest)"
    and "\<forall>c\<in>set ws. is_space c"
    and "tok \<noteq> []"
    and "\<forall>c\<in>set tok. \<not> is_space c"
    and "rest = [] \<or> is_space (hd rest)"
  shows "time_str line = Inr tok"
proof -
  have "py_last (py_split (CHR '':'') line) = Inr (ws @ tok @ rest)"
    unfolding assms(1) using assms(2) by (rule py_last_split)
  then show ?thesis
    using py_first_split_ws [OF assms(3-6)]
    by (simp add: time_str_def py_split_ws_strip)
qed

lemma scan_line_cases:
  "scan_line line t =
     (if py_in ''cache loading time'' (lower line) then try_store ''cache_loading'' line t
      else if py_in ''cache saving time'' (lower line) then try_store ''cache_saving'' line t
      else if py_in ''raw data reading time'' (lower line) then try_store ''raw_reading'' line t
      else if py_in ''total data preparation time'' (lower line) then
        try_store ''total_preparation'' line t
      else t)"
  by (simp add: scan_line_def)




lemma try_store_value:
  "line_value line = Inr v \<Longrightarrow> try_store key line t = AList.update key v t"
  "line_value line = Inl err \<Longrightarrow> try_store key line t = t"
  by (simp_all add: try_store_def)

lemma scan_line_skips: "line_value line = Inl err \<Longrightarrow> scan_line line t = t"
  by (simp add: scan_line_cases try_store_value)


lemma example_malformed: "line_value ''Cache loading time: abc seconds'' = Inl ValueError"
proof -
  have "time_str ''Cache loading time: abc seconds'' = Inr ''abc''"
    by (rule time_str_token [where pre = "''Cache loading time''" and ws = "'' ''"
          and rest = "'' seconds''"]) (simp_all add: is_space_def)
  moreover have "py_float ''abc'' = Inl ValueError"
    by code_simp
  ultimately show ?thesis by (simp add: line_value_def)
qed

subsection \<open>Output without markers\<close>

lemma py_split_head_prefix: "py_split c s = p # ps \<Longrightarrow> prefix p s"
proof (induction s arbitrary: p ps)
  case Nil
  then show ?case by simp
next
  case (Cons a s)
  obtain q qs where q: "py_split c s = q # qs"
    using py_split_nonempty [of c s] by (cases "py_split c s") auto
  show ?case
  proof (cases "a = c")
    case True
    with Cons.prems show ?thesis by simp
  next
    case False
    with Cons.prems q have "p = a # q" by simp
    then show ?thesis using Cons.IH [OF q] by simp
  qed
qed

lemma py_split_sublist: "x \<in> set (py_split c s) \<Longrightarrow> sublist x s"
proof (induction s arbitrary: x)
  case Nil
  then show ?case by simp
next
  case (Cons a s)
  obtain p ps where p: "py_split c s = p # ps"
    using py_split_nonempty [of c s] by (cases "py_split c s") auto
  show ?case
  proof (cases "a = c")
    case True
    with Cons.prems have "x = [] \<or> x \<in> set (py_split c s)" by simp
    then show ?thesis
      using Cons.IH by (auto simp add: sublist_Cons_right)
  next
    case False
    with Cons.prems p have "x = a # p \<or> x \<in> set ps" by simp
    then show ?thesis
    proof
      assume x: "x = a # p"
      have "prefix p s" using p by (rule py_split_head_prefix)
      then show ?thesis using x by (simp add: sublist_Cons_right)
    next
      assume "x \<in> set ps"
      then have "sublist x s" using Cons.IH [of x] p by simp
      then show ?thesis by (simp add: sublist_Cons_right)
    qed
  qed
qed

lemma py_in_line:
  assumes "x \<in> set (py_split c text)" and "py_in m (lower x)"
  shows "py_in m (lower text)"
proof -
  have "sublist (lower x) (lower text)"
    unfolding lower_def using assms(1) by (intro map_mono_sublist py_split_sublist)
  with assms(2) show ?thesis
    unfolding py_in_def by (rule sublist_order.order_trans)
qed

lemma has_marker_iff:
  "has_marker text \<longleftrightarrow>
     py_in ''cache loading time'' (lower text) \<or> py_in ''cache saving time'' (lower text) \<or>
     py_in ''raw data reading time'' (lower text) \<or>
     py_in ''total data preparation time'' (lower text)"
  by (simp add: has_marker_def markers_def)

lemma scan_line_no_marker: "\<not> has_marker line \<Longrightarrow> scan_line line t = t"
  by (simp add: has_marker_iff scan_line_cases)

lemma fold_scan_line_no_marker:
  "\<forall>x\<in>set ls. \<not> has_marker x \<Longrightarrow> fold scan_line ls t = t"
  by (induction ls arbitrary: t) (simp_all add: scan_line_no_marker)

lemma parse_output_no_marker:
  assumes "\<not> has_marker text"
  shows "parse_output text = []"
proof -
  have "\<forall>x\<in>set (py_split (CHR 0x0A) text). \<not> has_marker x"
    using assms py_in_line [of _ "CHR 0x0A" "text"] by (auto simp add: has_marker_iff)
  then show ?thesis
    by (simp add: parse_output_def fold_scan_line_no_marker)
qed

lemma timing_keys_eq:
  "timing_keys =
     [''cache_loading'', ''cache_saving'', ''raw_reading'', ''total_preparation'',
      ''total_execution'']"
  by (simp add: timing_keys_def metrics_def)

lemma example_no_marker: "\<not> has_marker ''Processing finished''"
  by code_simp

subsection \<open>The comparison table\<close>

lemma reported_alt:
  "reported r key =
     (if gt_zero (get_or_zero r key) then Some (get_or_zero r key) else None)"
  by (simp add: reported_def get_or_zero_def split: option.splits)

lemma py_truediv_quotient:
  "gt_zero x \<Longrightarrow> gt_zero y \<Longrightarrow> py_truediv x y = Inr (quotient x y)"
  by (cases x; cases y) auto

lemma size_key_iff:
  assumes "m \<in> set metrics"
  shows "snd m = ''cache_size_mb'' \<longleftrightarrow> snd m \<notin> set timing_keys"
  using assms by (auto simp add: metrics_def timing_keys_eq)

lemma compare_metric_expected:
  assumes "m \<in> set metrics"
  shows "compare_metric m s =
     (Inr (), s\<lparr>console := console s @ expected_rows (results s) m\<rparr>)"
proof -
  obtain dn key where m: "m = (dn, key)" by (cases m)
  have k: "key = ''cache_size_mb'' \<longleftrightarrow> key \<notin> set timing_keys"
    using size_key_iff [OF assms] by (simp add: m)
  let ?o = "get_or_zero (original (results s)) key"
  let ?p = "get_or_zero (optimized (results s)) key"
  show ?thesis
  proof (cases "gt_zero ?o")
    case o: True
    show ?thesis
    proof (cases "gt_zero ?p")
      case True
      with o k show ?thesis
        by (simp add: compare_metric_def m Let_def expected_rows_def reported_alt
            py_truediv_quotient py_print_def)
    next
      case False
      with o show ?thesis
        by (simp add: compare_metric_def m Let_def expected_rows_def reported_alt py_print_def)
    qed
  next
    case o: False
    show ?thesis
    proof (cases "gt_zero ?p")
      case True
      with o show ?thesis
        by (simp add: compare_metric_def m Let_def expected_rows_def reported_alt py_print_def)
    next
      case False
      with o show ?thesis
        by (simp add: compare_metric_def m Let_def expected_rows_def reported_alt)
    qed
  qed
qed

lemma for_metrics_expected:
  assumes "set ms \<subseteq> set metrics"
  shows "for_metrics ms s =
     (Inr (), s\<lparr>console := console s @ concat (map (expected_rows (results s)) ms)\<rparr>)"
  using assms
proof (induction ms arbitrary: s)
  case Nil
  show ?case by simp
next
  case (Cons m ms)
  then have m: "m \<in> set metrics" and ms: "set ms \<subseteq> set metrics" by simp_all
  show ?case
    by (simp add: compare_metric_expected [OF m] Cons.IH [OF ms])
qed

subsection \<open>What the steps do to the world\<close>

lemma clear_caches_outside:
  "outside (clear_caches s) =
     (outside s)\<lparr>timstof_cache := None, timstof_cache_optimized := None\<rparr>"
  by (cases "outside s") (simp add: clear_caches_def Let_def)

lemma start_step_outside:
  "outside (start_step c s) =
     (if c then (outside s)\<lparr>timstof_cache := None, timstof_cache_optimized := None\<rparr>
      else outside s)"
  by (simp add: start_step_def Let_def clear_caches_outside)

lemma clear_between_step_outside:
  "outside (clear_between_step c s) =
     (if c then (outside s)\<lparr>timstof_cache := None, timstof_cache_optimized := None\<rparr>
      else outside s)"
  by (simp add: clear_between_step_def clear_caches_outside)

lemma compare_results_expected:
  "compare_results s =
     (Inr (),
      s\<lparr>console :=
          console s @ table_head @ concat (map (expected_rows (results s)) metrics)\<rparr>)"
  by (simp add: compare_results_def Let_def for_metrics_expected table_head_def py_print_def)

lemma compare_step_emitted:
  "emitted s (snd (compare_step s)) =
     (if original (results s) \<noteq> [] \<and> optimized (results s) \<noteq> []
      then table_head @ concat (map (expected_rows (results s)) metrics) else [])"
  by (simp add: compare_step_def compare_results_expected emitted_def)

lemma save_step_outside:
  "outside (save_step s) = (outside s)\<lparr>json_file := Some (results s)\<rparr>"
  by (simp add: save_step_def)

lemma save_step_emitted:
  "emitted s (save_step s) =
     [Text (CHR 0x0A # ''Detailed results saved to: performance_comparison.json'')]"
  by (simp add: save_step_def emitted_def)

lemma caching_env_simps [simp]:
  "cargo_build caching_env d w = (exit_with 0 [] [], w)"
  "cargo_run caching_env OriginalDir w =
     (Completed (exit_with 0 [] []), w\<lparr>timstof_cache := Some [1048576], clock := clock w + 3\<rparr>)"
  "cargo_run caching_env OptimizedDir w =
     (Completed (exit_with 0 [] []),
      w\<lparr>timstof_cache_optimized := Some [524288], clock := clock w + 2\<rparr>)"
  by (simp_all add: caching_env_def)

section \<open>Properties\<close>

text \<open>
  C1. The claim: when the build exits zero and the run does not finish within 600 seconds,
  \<open>run_version\<close> returns absent. The code does otherwise: \<^verbatim>\<open>subprocess.run\<close> raises
  \<open>TimeoutExpired\<close>, nothing in \<open>run_version\<close> catches it, so the call raises instead
  of returning \<^verbatim>\<open>None\<close>.
\<close>

theorem run_version_timeout_raises:
  assumes "returncode (fst (cargo_build e d (outside s))) = 0"
    and "fst (cargo_run e d (snd (cargo_build e d (outside s)))) = Expired"
  shows "fst (run_version e d n s) = Inl TimeoutExpired \<and> fst (run_version e d n s) \<noteq> Inr None"
  using assms by (simp add: run_version_expired)

theorem run_version_timeout_raises_witness:
  "fst (run_version (demo_env (exit_with 0 [] []) Expired) OriginalDir ''original''
          (fresh demo_world)) = Inl TimeoutExpired \<and>
   fst (run_version (demo_env (exit_with 0 [] []) Expired) OriginalDir ''original''
          (fresh demo_world)) \<noteq> Inr None"
  using run_version_timeout_raises
    [of "demo_env (exit_with 0 [] []) Expired" OriginalDir "fresh demo_world" "''original''"]
  by (simp add: demo_env_def exit_with_def)

text \<open>
  The exception is caught nowhere else either: in the example the whole program ends with
  it, and the record of results is never written.
\<close>

lemma main_timeout_aborts:
  "fst (main (demo_env (exit_with 0 [] []) Expired) [''compare_performance.py''] demo_world)
     = Uncaught TimeoutExpired \<and>
   json_file (outside (snd (main (demo_env (exit_with 0 [] []) Expired)
     [''compare_performance.py''] demo_world))) = None"
proof -
  let ?e = "demo_env (exit_with 0 [] []) Expired"
  let ?s = "start_step True (fresh demo_world)"
  let ?s' = "snd (run_version ?e OriginalDir ''original'' ?s)"
  have a: "returncode (fst (cargo_build ?e OriginalDir (outside ?s))) = 0"
    by (simp add: demo_env_def exit_with_def)
  have b: "fst (cargo_run ?e OriginalDir (snd (cargo_build ?e OriginalDir (outside ?s)))) = Expired"
    by (simp add: demo_env_def)
  have c: "original_dir_exists (outside ?s)" "json_file (outside ?s) = None"
    by (simp_all add: start_step_def clear_caches_def Let_def demo_world_def fresh_def)
  have d: "json_file (snd (cargo_run ?e OriginalDir (snd (cargo_build ?e OriginalDir (outside ?s))))) = None"
    using c by (simp add: demo_env_def)
  have r: "run_version ?e OriginalDir ''original'' ?s = (Inl TimeoutExpired, ?s')"
    using run_version_expired [OF a b] by simp
  have j: "json_file (outside ?s') = None"
    using d by (simp add: run_version_expired [OF a b])
  have "run_comparison ?e True (fresh demo_world) = (Inl TimeoutExpired, ?s')"
    by (rule run_comparison_raises_first, rule run_original_step_raises [OF c(1) r])
  moreover have "main ?e [''compare_performance.py''] demo_world =
     (case run_comparison ?e True (fresh demo_world) of
        (Inl err, s) \<Rightarrow> (Uncaught err, s)
      | (Inr u, s) \<Rightarrow> (Returned, s))"
    using main_runs [of demo_world "[''compare_performance.py'']" ?e]
    by (simp add: demo_world_def)
  ultimately show ?thesis using j by simp
qed

text \<open>
  C2 (as amended). When the build and the run exit with zero and the captured output
  contains none of the four markers, the Run Result has none of the four scraped timing
  entries. It is the \<^verbatim>\<open>total_execution\<close> entry measured by the driver, followed by a
  \<^verbatim>\<open>cache_size_mb\<close> entry exactly when the cache directory of the label exists after the
  run.
\<close>

theorem no_marker_run_result:
  assumes "returncode (fst (cargo_build e d (outside s))) = 0"
    and "fst (cargo_run e d (snd (cargo_build e d (outside s)))) = Completed p"
    and "returncode p = 0"
    and "\<not> has_marker (stdout p)"
  shows "\<exists>r. fst (run_version e d n s) = Inr (Some r) \<and>
     r = (''total_execution'',
          Finite (clock (snd (cargo_run e d (snd (cargo_build e d (outside s))))) -
                  clock (snd (cargo_build e d (outside s))))) #
         (case (if n = ''original''
                then timstof_cache (snd (cargo_run e d (snd (cargo_build e d (outside s)))))
                else timstof_cache_optimized
                       (snd (cargo_run e d (snd (cargo_build e d (outside s)))))) of
            None \<Rightarrow> []
          | Some sizes \<Rightarrow>
              [(''cache_size_mb'', Finite (of_nat (sum_list sizes) / (1024 * 1024)))]) \<and>
     (\<forall>k\<in>set scraped_keys. map_of r k = None) \<and>
     map fst (timing_entries r) = [''total_execution'']"
  using assms
  by (simp add: run_version_ok parse_output_no_marker Let_def scraped_keys_def
      timing_entries_def timing_keys_eq split: option.splits)

text \<open>
  An example: the run prints a line without a marker; the cache of the first label holds
  three megabytes.
\<close>

theorem no_marker_run_result_witness:
  "fst (run_version
     (demo_env (exit_with 0 [] []) (Completed (exit_with 0 ''Processing finished'' [])))
     OriginalDir ''original'' (fresh demo_world)) =
     Inr (Some [(''total_execution'', Finite 3), (''cache_size_mb'', Finite 3)]) \<and>
   map_of [(''total_execution'', Finite 3), (''cache_size_mb'', Finite (3::rat))]
     ''cache_loading'' = None"
proof -
  let ?e = "demo_env (exit_with 0 [] []) (Completed (exit_with 0 ''Processing finished'' []))"
  from no_marker_run_result
    [of ?e OriginalDir "fresh demo_world" "exit_with 0 ''Processing finished'' []" "''original''"]
    example_no_marker
  show ?thesis
    by (simp add: demo_world_def)
qed

text \<open>
  The claim as stated (zero timing entries) fails on the same run: its Run Result holds
  one timing entry, \<^verbatim>\<open>total_execution\<close>.
\<close>

theorem no_marker_timing_entry_counterexample:
  "\<not> has_marker (stdout (exit_with 0 ''Processing finished'' [])) \<and>
   fst (run_version
     (demo_env (exit_with 0 [] []) (Completed (exit_with 0 ''Processing finished'' [])))
     OriginalDir ''original'' (fresh demo_world)) =
     Inr (Some [(''total_execution'', Finite 3), (''cache_size_mb'', Finite 3)]) \<and>
   timing_entries [(''total_execution'', Finite 3), (''cache_size_mb'', Finite 3)] =
     [(''total_execution'', Finite 3)]"
  by (simp add: run_version_ok [where p = "exit_with 0 ''Processing finished'' []"]
      parse_output_no_marker example_no_marker demo_world_def timing_entries_def timing_keys_eq)

text \<open>
  C3 (as amended). When the arguments include \<^verbatim>\<open>--help\<close> and both project directories
  are present, the program prints the usage message and exits with status 0, having built
  and run nothing; when one of them is missing, the check of the directories comes first
  and the program exits with status 1 after the error message, \<^verbatim>\<open>--help\<close> or not.
\<close>

theorem help_needs_directories:
  assumes "''--help'' \<in> set argv"
  shows "(original_dir_exists w \<and> optimized_dir_exists w \<longrightarrow>
            main e argv w = (SysExit 0, (fresh w)\<lparr>console := usage\<rparr>) \<and>
            exit_status (fst (main e argv w)) = 0) \<and>
         (\<not> (original_dir_exists w \<and> optimized_dir_exists w) \<longrightarrow>
            exit_status (fst (main e argv w)) = 1 \<and>
            console (snd (main e argv w)) =
              [Text ''Error: This script must be run from the accelerate_caching directory'',
               Text (''Current directory: '' @ cwd w)])"
  using assms by (auto simp add: main_def Let_def fresh_def)

theorem help_needs_directories_witness:
  "main (demo_env (exit_with 0 [] []) Expired) [''compare_performance.py'', ''--help'']
     demo_world = (SysExit 0, (fresh demo_world)\<lparr>console := usage\<rparr>) \<and>
   exit_status (fst (main (demo_env (exit_with 0 [] []) Expired)
     [''compare_performance.py'', ''--help''] demo_world)) = 0"
  using help_needs_directories
    [of "[''compare_performance.py'', ''--help'']" demo_world
        "demo_env (exit_with 0 [] []) Expired"]
  by (simp add: demo_world_def)

text \<open>
  The claim as stated (success whether or not the directories are present) fails in a
  world without the first project directory.
\<close>

theorem help_without_directory_counterexample:
  "''--help'' \<in> set [''compare_performance.py'', ''--help''] \<and>
   exit_status (fst (main (demo_env (exit_with 0 [] []) Expired)
     [''compare_performance.py'', ''--help'']
     (demo_world\<lparr>original_dir_exists := False\<rparr>))) = 1 \<and>
   set usage \<inter> set (console (snd (main (demo_env (exit_with 0 [] []) Expired)
     [''compare_performance.py'', ''--help'']
     (demo_world\<lparr>original_dir_exists := False\<rparr>)))) = {}"
  by (simp add: main_def Let_def usage_def)

text \<open>
  C4. For each of the six metrics \<open>compare_results\<close> prints what \<open>expected_rows\<close>
  describes: a ratio, original divided by optimized, exactly when both Run Results report
  a strictly positive value, with the suffix for faster on the five timing metrics and
  the suffix for smaller on the size; the single value with \<^verbatim>\<open>N/A\<close> for the other side
  when exactly one side reports one; and no row when neither does. The division never
  raises, since it is made only for a positive divisor.
\<close>

theorem comparison_rows:
  "(m \<in> set metrics \<longrightarrow>
      compare_metric m s =
        (Inr (), s\<lparr>console := console s @ expected_rows (results s) m\<rparr>)) \<and>
   compare_results s =
     (Inr (),
      s\<lparr>console :=
          console s @ table_head @ concat (map (expected_rows (results s)) metrics)\<rparr>) \<and>
   map snd metrics = timing_keys @ [''cache_size_mb'']"
proof (intro conjI impI)
  assume "m \<in> set metrics"
  then show "compare_metric m s =
      (Inr (), s\<lparr>console := console s @ expected_rows (results s) m\<rparr>)"
    by (rule compare_metric_expected)
next
  show "compare_results s =
     (Inr (),
      s\<lparr>console :=
          console s @ table_head @ concat (map (expected_rows (results s)) metrics)\<rparr>)"
    by (simp add: compare_results_def Let_def for_metrics_expected table_head_def py_print_def)
next
  show "map snd metrics = timing_keys @ [''cache_size_mb'']"
    by (simp add: timing_keys_eq metrics_def)
qed

text \<open>
  An example: loading times of 12.5 and 2.5 seconds give a ratio of 5 framed as faster;
  the size, reported by the first label only, is shown without a ratio.
\<close>

theorem comparison_rows_witness:
  "console (snd (compare_metric (''Cache Loading'', ''cache_loading'')
     ((fresh demo_world)\<lparr>results := demo_results\<rparr>))) =
     [TableRow ''Cache Loading'' (Num (Finite (25 / 2))) (Num (Finite (5 / 2)))
        (Speedup (Finite 5) ''x faster'')] \<and>
   console (snd (compare_results ((fresh demo_world)\<lparr>results := demo_results\<rparr>))) =
     table_head @
     [TableRow ''Cache Loading'' (Num (Finite (25 / 2))) (Num (Finite (5 / 2)))
        (Speedup (Finite 5) ''x faster''),
      TableRow ''Cache Size (MB)'' (Num (Finite 3)) NA NoSpeedup]"
proof -
  let ?s = "(fresh demo_world)\<lparr>results := demo_results\<rparr>"
  have m: "(''Cache Loading'', ''cache_loading'') \<in> set metrics"
    by (simp add: metrics_def)
  have r: "map (expected_rows demo_results) metrics =
     [[TableRow ''Cache Loading'' (Num (Finite (25 / 2))) (Num (Finite (5 / 2)))
         (Speedup (Finite 5) ''x faster'')],
      [], [], [], [],
      [TableRow ''Cache Size (MB)'' (Num (Finite 3)) NA NoSpeedup]]"
    by (simp add: metrics_def expected_rows_def reported_def demo_results_def timing_keys_eq)
  from comparison_rows [of "(''Cache Loading'', ''cache_loading'')" ?s] m
  have "compare_metric (''Cache Loading'', ''cache_loading'') ?s =
      (Inr (), ?s\<lparr>console := console ?s @
         expected_rows (results ?s) (''Cache Loading'', ''cache_loading'')\<rparr>)"
    and "compare_results ?s =
     (Inr (), ?s\<lparr>console := console ?s @ table_head @
        concat (map (expected_rows (results ?s)) metrics)\<rparr>)"
    by blast+
  then show ?thesis
    using r by (simp add: expected_rows_def reported_def demo_results_def timing_keys_eq)
qed



text \<open>
  C6. A line whose value cannot be obtained, because there is no token or because
  \<^verbatim>\<open>float\<close> rejects it, changes nothing: the mapping is as it was, and the lines before
  and after it are read as if it were not there. Nothing is raised, so a run whose build
  and run steps exit with zero returns a Run Result whatever it printed. The line
  \<^verbatim>\<open>Cache loading time: abc seconds\<close> is such a line and yields no entry.
\<close>

theorem malformed_line_is_skipped:
  "(line_value line = Inl err \<longrightarrow>
      scan_line line t = t \<and>
      fold scan_line (before @ line # after) t = fold scan_line (before @ after) t) \<and>
   (returncode (fst (cargo_build e d (outside s))) = 0 \<and>
    fst (cargo_run e d (snd (cargo_build e d (outside s)))) = Completed p \<and>
    returncode p = 0 \<longrightarrow>
      (\<exists>r. fst (run_version e d n s) = Inr (Some r))) \<and>
   line_value ''Cache loading time: abc seconds'' = Inl ValueError \<and>
   parse_output ''Cache loading time: abc seconds'' = []"
proof (intro conjI impI)
  assume "line_value line = Inl err"
  then show "scan_line line t = t" by (rule scan_line_skips)
  then show "fold scan_line (before @ line # after) t = fold scan_line (before @ after) t"
    using scan_line_skips [OF \<open>line_value line = Inl err\<close>] by simp
next
  assume "returncode (fst (cargo_build e d (outside s))) = 0 \<and>
    fst (cargo_run e d (snd (cargo_build e d (outside s)))) = Completed p \<and>
    returncode p = 0"
  then show "\<exists>r. fst (run_version e d n s) = Inr (Some r)"
    by (simp add: run_version_ok)
next
  show "line_value ''Cache loading time: abc seconds'' = Inl ValueError"
    by (rule example_malformed)
  have "py_split (CHR 0x0A) ''Cache loading time: abc seconds'' =
      [''Cache loading time: abc seconds'']"
    by (rule py_split_no_sep) simp
  then show "parse_output ''Cache loading time: abc seconds'' = []"
    by (simp add: parse_output_def scan_line_skips [OF example_malformed])
qed

text \<open>
  An example: the malformed line is all the run prints. The run still returns a Run
  Result, without a \<^verbatim>\<open>cache_loading\<close> entry.
\<close>

theorem malformed_line_is_skipped_witness:
  "scan_line ''Cache loading time: abc seconds'' [(''cache_saving'', Finite 1)] =
     [(''cache_saving'', Finite 1)] \<and>
   fst (run_version
     (demo_env (exit_with 0 [] [])
        (Completed (exit_with 0 ''Cache loading time: abc seconds'' [])))
     OriginalDir ''original'' (fresh demo_world)) =
     Inr (Some [(''total_execution'', Finite 3), (''cache_size_mb'', Finite 3)])"
proof -
  let ?line = "''Cache loading time: abc seconds''"
  let ?e = "demo_env (exit_with 0 [] []) (Completed (exit_with 0 ?line []))"
  note T = malformed_line_is_skipped
    [of ?line ValueError "[(''cache_saving'', Finite 1)]" "[]" "[]" ?e OriginalDir
        "fresh demo_world" "exit_with 0 ?line []" "''original''"]
  from T have v: "line_value ?line = Inl ValueError" and p: "parse_output ?line = []"
    by blast+
  from T v have 1: "scan_line ?line [(''cache_saving'', Finite 1)] = [(''cache_saving'', Finite 1)]"
    by blast
  have 2: "fst (run_version ?e OriginalDir ''original'' (fresh demo_world)) =
     Inr (Some [(''total_execution'', Finite 3), (''cache_size_mb'', Finite 3)])"
    by (simp add: run_version_ok [where p = "exit_with 0 ?line []"] p demo_world_def)
  from 1 2 show ?thesis by blast
qed

text \<open>
  C7. When the build step exits with a non-zero status, \<open>run_version\<close> returns absent
  and the run step is not invoked: the world is left as the build left it, and the outcome
  is the same whatever the run step would have done. In a comparison that reaches its
  end, the record written then holds for that label the entry it had before the
  comparison, which is the empty mapping for a new \<open>PerformanceComparison\<close>.
\<close>

theorem build_failure_returns_absent:
  "(returncode (fst (cargo_build e d (outside s))) \<noteq> 0 \<longrightarrow>
      fst (run_version e d n s) = Inr None \<and>
      outside (snd (run_version e d n s)) = snd (cargo_build e d (outside s)) \<and>
      (\<forall>e'. cargo_build e' = cargo_build e \<longrightarrow> run_version e' d n s = run_version e d n s)) \<and>
   (run_comparison e c s0 = (Inr u, s') \<and>
    original_dir_exists (outside (before_original c s0)) \<and>
    returncode (fst (cargo_build e OriginalDir (outside (before_original c s0)))) \<noteq> 0 \<longrightarrow>
      json_file (outside s') = Some (results s') \<and>
      original (results s') = original (results s0)) \<and>
   (run_comparison e c s0 = (Inr u, s') \<and>
    optimized_dir_exists (outside (before_optimized e c s0)) \<and>
    returncode (fst (cargo_build e OptimizedDir (outside (before_optimized e c s0)))) \<noteq> 0 \<longrightarrow>
      json_file (outside s') = Some (results s') \<and>
      optimized (results s') = optimized (results s0))"
proof (intro conjI impI allI)
  assume f: "returncode (fst (cargo_build e d (outside s))) \<noteq> 0"
  show "fst (run_version e d n s) = Inr None"
    using f by (simp add: run_version_build_failed)
  show "outside (snd (run_version e d n s)) = snd (cargo_build e d (outside s))"
    using f by (simp add: run_version_build_failed)
  fix e' :: env
  assume "cargo_build e' = cargo_build e"
  then show "run_version e' d n s = run_version e d n s"
    using f by (simp add: run_version_build_failed)
next
  assume h: "run_comparison e c s0 = (Inr u, s') \<and>
    original_dir_exists (outside (before_original c s0)) \<and>
    returncode (fst (cargo_build e OriginalDir (outside (before_original c s0)))) \<noteq> 0"
  then have rc: "run_comparison e c s0 = (Inr u, s')" by simp
  show "json_file (outside s') = Some (results s')"
    by (rule run_comparison_persisted(1) [OF rc])
  from h have "fst (run_version e OriginalDir ''original'' (before_original c s0)) = Inr None"
    by (simp add: run_version_build_failed)
  then have "original (results (snd (run_original_step e (before_original c s0)))) =
      original (results s0)"
    by (simp add: run_original_step_results before_original_def)
  then show "original (results s') = original (results s0)"
    by (simp add: run_comparison_persisted(2) [OF rc] run_optimized_step_results
        before_optimized_def)
next
  assume h: "run_comparison e c s0 = (Inr u, s') \<and>
    optimized_dir_exists (outside (before_optimized e c s0)) \<and>
    returncode (fst (cargo_build e OptimizedDir (outside (before_optimized e c s0)))) \<noteq> 0"
  then have rc: "run_comparison e c s0 = (Inr u, s')" by simp
  show "json_file (outside s') = Some (results s')"
    by (rule run_comparison_persisted(1) [OF rc])
  from h have "fst (run_version e OptimizedDir ''optimized'' (before_optimized e c s0)) = Inr None"
    by (simp add: run_version_build_failed)
  then have "optimized (results (snd (run_optimized_step e (before_optimized e c s0)))) =
      optimized (results (before_optimized e c s0))"
    by (simp add: run_optimized_step_results)
  then show "optimized (results s') = optimized (results s0)"
    by (simp add: run_comparison_persisted(2) [OF rc] run_original_step_results
        before_optimized_def before_original_def)
qed

text \<open>
  An example: both builds fail with status 101. The comparison reaches its end, and the
  record holds two empty mappings.
\<close>

theorem build_failure_returns_absent_witness:
  "fst (run_version (demo_env (exit_with 101 [] ''error: could not compile'') Expired)
          OriginalDir ''original'' (fresh demo_world)) = Inr None \<and>
   fst (run_comparison (demo_env (exit_with 101 [] ''error: could not compile'') Expired)
          True (fresh demo_world)) = Inr () \<and>
   json_file (outside (snd (run_comparison
     (demo_env (exit_with 101 [] ''error: could not compile'') Expired) True (fresh demo_world))))
     = Some \<lparr>original = [], optimized = []\<rparr>"
proof -
  let ?e = "demo_env (exit_with 101 [] ''error: could not compile'') Expired"
  let ?s0 = "fresh demo_world"
  let ?s' = "snd (run_comparison ?e True ?s0)"
  have b: "returncode (fst (cargo_build ?e d w)) \<noteq> 0" for d w
    by simp
  have d1: "original_dir_exists (outside (before_original True ?s0))"
    by (simp add: before_original_def demo_world_def)
  have d2: "optimized_dir_exists (outside (before_optimized ?e True ?s0))"
    by (simp add: before_optimized_def before_original_def run_original_step_unfold
        run_version_build_failed demo_world_def)
  have c: "fst (run_comparison ?e True ?s0) = Inr ()"
    by (simp add: run_comparison_completes_iff run_version_build_failed b)
  then have r: "run_comparison ?e True ?s0 = (Inr (), ?s')"
    by (simp add: prod_eq_iff)
  have i: "results ?s0 = \<lparr>original = [], optimized = []\<rparr>"
    by (simp add: init_results_def)
  note T = build_failure_returns_absent
    [of ?e OriginalDir ?s0 "''original''" True ?s0 "()" ?s']
  have 1: "fst (run_version ?e OriginalDir ''original'' ?s0) = Inr None"
    using T b [of OriginalDir "outside ?s0"] by blast
  have 2: "json_file (outside ?s') = Some (results ?s')"
    and 3: "original (results ?s') = original (results ?s0)"
    using T r d1 b [of OriginalDir "outside (before_original True ?s0)"] by blast+
  have 4: "optimized (results ?s') = optimized (results ?s0)"
    using T r d2 b [of OptimizedDir "outside (before_optimized ?e True ?s0)"] by blast
  have "results ?s' = \<lparr>original = [], optimized = []\<rparr>"
    using 3 4 i by (cases "results ?s'") simp
  with 1 2 c show ?thesis by simp
qed

text \<open>
  C8. A comparison that reaches its end has gone through its steps in the fixed order,
  each with its effect. When clearing is asked for, both cache directories are absent
  when label A starts and again when label B starts, and nothing else of the world is
  touched by the clearing; otherwise the world is passed on as it is. Label A is run in
  the state so reached (or skipped with a warning when its directory is missing), then
  label B in the same way, and each stores its Run Result when it returns a non-empty
  one. The table is printed exactly when both mappings are non-empty, with the rows of
  \<open>expected_rows\<close>. The record is written last: whatever the builds and runs did, the
  file then holds the two Run Results as they stand, in place of anything it held
  before, and nothing else of the world is changed after label B.
\<close>

theorem run_comparison_sequence:
  assumes "run_comparison e c s0 = (Inr u, s')"
  shows "console s' = console s0 @ emitted s0 s' \<and>
     steps_of (emitted s0 s') =
       (if c then [ClearStep] else []) @
       [if original_dir_exists (outside (before_original c s0)) then RunStep ''original''
        else SkipStep ''original''] @
       (if c then [ClearStep] else []) @
       [if optimized_dir_exists (outside (before_optimized e c s0)) then RunStep ''optimized''
        else SkipStep ''optimized''] @
       (if original (results s') \<noteq> [] \<and> optimized (results s') \<noteq> [] then [CompareStep]
        else []) @
       [PersistStep] \<and>
     json_file (outside s') = Some (results s') \<and>
     outside (before_original c s0) =
       (if c then (outside s0)\<lparr>timstof_cache := None, timstof_cache_optimized := None\<rparr>
        else outside s0) \<and>
     outside (snd (run_original_step e (before_original c s0))) =
       (if original_dir_exists (outside (before_original c s0)) then
          outside (snd (run_version e OriginalDir ''original'' (before_original c s0)))
        else outside (before_original c s0)) \<and>
     outside (before_optimized e c s0) =
       (if c then
          (outside (snd (run_original_step e (before_original c s0))))
            \<lparr>timstof_cache := None, timstof_cache_optimized := None\<rparr>
        else outside (snd (run_original_step e (before_original c s0)))) \<and>
     outside (before_compare e c s0) =
       (if optimized_dir_exists (outside (before_optimized e c s0)) then
          outside (snd (run_version e OptimizedDir ''optimized'' (before_optimized e c s0)))
        else outside (before_optimized e c s0)) \<and>
     (c \<longrightarrow> caches (outside (before_original c s0)) = (None, None) \<and>
            caches (outside (before_optimized e c s0)) = (None, None)) \<and>
     original (results s') =
       (if original_dir_exists (outside (before_original c s0)) then
          (case fst (run_version e OriginalDir ''original'' (before_original c s0)) of
             Inl err \<Rightarrow> original (results s0)
           | Inr None \<Rightarrow> original (results s0)
           | Inr (Some r) \<Rightarrow> if r \<noteq> [] then r else original (results s0))
        else original (results s0)) \<and>
     optimized (results s') =
       (if optimized_dir_exists (outside (before_optimized e c s0)) then
          (case fst (run_version e OptimizedDir ''optimized'' (before_optimized e c s0)) of
             Inl err \<Rightarrow> optimized (results s0)
           | Inr None \<Rightarrow> optimized (results s0)
           | Inr (Some r) \<Rightarrow> if r \<noteq> [] then r else optimized (results s0))
        else optimized (results s0)) \<and>
     emitted (before_compare e c s0) s' =
       (if original (results s') \<noteq> [] \<and> optimized (results s') \<noteq> []
        then table_head @ concat (map (expected_rows (results s')) metrics) else []) @
       [Text (CHR 0x0A # ''Detailed results saved to: performance_comparison.json'')] \<and>
     outside s' = (outside (before_compare e c s0))\<lparr>json_file := Some (results s')\<rparr>"
proof -
  let ?s1 = "before_original c s0"
  let ?s2 = "snd (run_original_step e ?s1)"
  let ?s3 = "before_optimized e c s0"
  let ?s4 = "snd (run_optimized_step e ?s3)"
  let ?s5 = "snd (compare_step ?s4)"
  have s': "s' = save_step ?s5"
    by (rule run_comparison_completes(3) [OF assms])
  have r: "results s' = results ?s4"
    by (rule run_comparison_persisted(2) [OF assms])
  have 3: "?s3 = clear_between_step c ?s2"
    by (simp add: before_optimized_def)
  have bc: "before_compare e c s0 = ?s4"
    by (simp add: before_compare_def)
  note t1 = start_step_emits [of c s0, folded before_original_def]
  note t2 = emits_trans [OF t1 run_original_step_emits [of e ?s1]]
  note t3 = emits_trans [OF t2 clear_between_step_emits [of c ?s2, folded 3]]
  note t4 = emits_trans [OF t3 run_optimized_step_emits [of e ?s3]]
  note t5 = emits_trans [OF t4 compare_step_emits [of ?s4]]
  note t6 = emits_trans [OF t5 save_step_emits [of ?s5]]
  have a: "console s' = console s0 @ emitted s0 s' \<and>
     steps_of (emitted s0 s') =
       (if c then [ClearStep] else []) @
       [if original_dir_exists (outside ?s1) then RunStep ''original''
        else SkipStep ''original''] @
       (if c then [ClearStep] else []) @
       [if optimized_dir_exists (outside ?s3) then RunStep ''optimized''
        else SkipStep ''optimized''] @
       (if original (results s') \<noteq> [] \<and> optimized (results s') \<noteq> [] then [CompareStep]
        else []) @
       [PersistStep] \<and>
     json_file (outside s') = Some (results s')"
    using t6 run_comparison_persisted(1) [OF assms]
    unfolding s' [symmetric] r [symmetric] by simp
  have b: "outside ?s1 =
       (if c then (outside s0)\<lparr>timstof_cache := None, timstof_cache_optimized := None\<rparr>
        else outside s0)"
    by (simp add: before_original_def start_step_outside)
  have d: "outside ?s3 =
       (if c then (outside ?s2)\<lparr>timstof_cache := None, timstof_cache_optimized := None\<rparr>
        else outside ?s2)"
    by (simp only: 3 clear_between_step_outside)
  have f: "c \<longrightarrow> caches (outside ?s1) = (None, None) \<and> caches (outside ?s3) = (None, None)"
  proof (cases c)
    case True
    with b d have "outside ?s1 =
        (outside s0)\<lparr>timstof_cache := None, timstof_cache_optimized := None\<rparr>"
      "outside ?s3 =
        (outside ?s2)\<lparr>timstof_cache := None, timstof_cache_optimized := None\<rparr>"
      by simp_all
    then show ?thesis using True by (simp add: caches_def)
  next
    case False
    then show ?thesis by simp
  qed
  have g: "original (results s') =
       (if original_dir_exists (outside ?s1) then
          (case fst (run_version e OriginalDir ''original'' ?s1) of
             Inl err \<Rightarrow> original (results s0)
           | Inr None \<Rightarrow> original (results s0)
           | Inr (Some r) \<Rightarrow> if r \<noteq> [] then r else original (results s0))
        else original (results s0))"
  proof -
    have "original (results s') = original (results ?s2)"
      by (simp add: r run_optimized_step_results(1) 3)
    also have "results ?s1 = results s0"
      by (simp add: before_original_def)
    ultimately show ?thesis
      by (simp add: run_original_step_results(2) split: sum.splits option.splits)
  qed
  have h: "optimized (results s') =
       (if optimized_dir_exists (outside ?s3) then
          (case fst (run_version e OptimizedDir ''optimized'' ?s3) of
             Inl err \<Rightarrow> optimized (results s0)
           | Inr None \<Rightarrow> optimized (results s0)
           | Inr (Some r) \<Rightarrow> if r \<noteq> [] then r else optimized (results s0))
        else optimized (results s0))"
  proof -
    have "optimized (results ?s3) = optimized (results s0)"
      by (simp add: 3 run_original_step_results(1) before_original_def)
    then show ?thesis
      by (simp add: r run_optimized_step_results(2) split: sum.splits option.splits)
  qed
  have i: "emitted ?s4 s' =
       (if original (results s') \<noteq> [] \<and> optimized (results s') \<noteq> []
        then table_head @ concat (map (expected_rows (results s')) metrics) else []) @
       [Text (CHR 0x0A # ''Detailed results saved to: performance_comparison.json'')]"
  proof -
    have "emitted ?s4 (save_step ?s5) = emitted ?s4 ?s5 @ emitted ?s5 (save_step ?s5)"
      using emitted_trans(2) [of ?s5 ?s4 "save_step ?s5"] compare_step_emits [of ?s4]
        save_step_emits [of ?s5]
      by simp
    then show ?thesis
      by (simp add: s' compare_step_emitted save_step_emitted)
  qed
  have j: "outside s' = (outside ?s4)\<lparr>json_file := Some (results s')\<rparr>"
    by (simp add: s' save_step_outside)
  show ?thesis
    using a b d f g h i j
    by (simp only: bc run_original_step_outside run_optimized_step_outside simp_thms)
qed

text \<open>
  An example: clearing is on, a record of an earlier comparison lies in the file, the
  first cache exists beforehand, and each run writes the cache of its label. The
  cache that the first run leaves is gone again when the second run starts.
\<close>

theorem run_comparison_sequence_witness:
  "fst (run_comparison caching_env True
     (fresh (demo_world\<lparr>json_file := Some \<lparr>original = [], optimized = []\<rparr>\<rparr>))) = Inr () \<and>
   steps_of (emitted (fresh (demo_world\<lparr>json_file := Some \<lparr>original = [], optimized = []\<rparr>\<rparr>))
     (snd (run_comparison caching_env True
        (fresh (demo_world\<lparr>json_file := Some \<lparr>original = [], optimized = []\<rparr>\<rparr>))))) =
     [ClearStep, RunStep ''original'', ClearStep, RunStep ''optimized'', CompareStep,
      PersistStep] \<and>
   caches demo_world = (Some [1048576, 2097152], None) \<and>
   caches (outside (before_original True
     (fresh (demo_world\<lparr>json_file := Some \<lparr>original = [], optimized = []\<rparr>\<rparr>)))) =
     (None, None) \<and>
   caches (outside (snd (run_original_step caching_env (before_original True
     (fresh (demo_world\<lparr>json_file := Some \<lparr>original = [], optimized = []\<rparr>\<rparr>))))))
     = (Some [1048576], None) \<and>
   caches (outside (before_optimized caching_env True
     (fresh (demo_world\<lparr>json_file := Some \<lparr>original = [], optimized = []\<rparr>\<rparr>)))) =
     (None, None) \<and>
   json_file (outside (snd (run_comparison caching_env True
     (fresh (demo_world\<lparr>json_file := Some \<lparr>original = [], optimized = []\<rparr>\<rparr>))))) =
     Some \<lparr>original = [(''total_execution'', Finite 3), (''cache_size_mb'', Finite 1)],
           optimized = [(''total_execution'', Finite 2), (''cache_size_mb'', Finite (1 / 2))]\<rparr>"
proof -
  let ?e = "caching_env"
  let ?s0 = "fresh (demo_world\<lparr>json_file := Some \<lparr>original = [], optimized = []\<rparr>\<rparr>)"
  let ?s' = "snd (run_comparison ?e True ?s0)"
  let ?A = "before_original True ?s0"
  let ?B = "before_optimized ?e True ?s0"
  have rvA: "fst (run_version ?e OriginalDir ''original'' s) =
      Inr (Some [(''total_execution'', Finite 3), (''cache_size_mb'', Finite 1)])" for s
    by (simp add: run_version_ok [where p = "exit_with 0 [] []"])
  have rvB: "fst (run_version ?e OptimizedDir ''optimized'' s) =
      Inr (Some [(''total_execution'', Finite 2), (''cache_size_mb'', Finite (1 / 2))])" for s
    by (simp add: run_version_ok [where p = "exit_with 0 [] []"])
  have c: "fst (run_comparison ?e True ?s0) = Inr ()"
    by (simp add: run_comparison_completes_iff rvA rvB)
  then have r: "run_comparison ?e True ?s0 = (Inr (), ?s')"
    by (simp add: prod_eq_iff)
  have d1: "original_dir_exists (outside ?A)"
    by (simp add: before_original_def demo_world_def)
  have d2: "optimized_dir_exists (outside ?B)"
    by (simp add: before_optimized_def before_original_def run_original_step_outside
        run_version_outside demo_world_def)
  have w: "caches demo_world = (Some [1048576, 2097152], None)"
    by (simp add: caches_def demo_world_def)
  note T = run_comparison_sequence [OF r]
  from T d1 d2 rvA rvB
  have 1: "original (results ?s') =
      [(''total_execution'', Finite 3), (''cache_size_mb'', Finite 1)]"
    and 2: "optimized (results ?s') =
      [(''total_execution'', Finite 2), (''cache_size_mb'', Finite (1 / 2))]"
    by simp_all
  then have 3: "results ?s' =
     \<lparr>original = [(''total_execution'', Finite 3), (''cache_size_mb'', Finite 1)],
      optimized = [(''total_execution'', Finite 2), (''cache_size_mb'', Finite (1 / 2))]\<rparr>"
    by (cases "results ?s'") simp
  from T have 4: "json_file (outside ?s') = Some (results ?s')"
    by blast
  from T d1 d2 1 2
  have 5: "steps_of (emitted ?s0 ?s') =
     [ClearStep, RunStep ''original'', ClearStep, RunStep ''optimized'', CompareStep,
      PersistStep]"
    by simp
  from T have 6: "caches (outside ?A) = (None, None)" "caches (outside ?B) = (None, None)"
    by blast+
  from T d1
  have "outside (snd (run_original_step ?e ?A)) =
      outside (snd (run_version ?e OriginalDir ''original'' ?A))"
    by simp
  then have 7: "caches (outside (snd (run_original_step ?e ?A))) = (Some [1048576], None)"
    using 6(1) by (simp add: run_version_outside caches_def)
  from c 5 w 6 7 4 3 show ?thesis by simp
qed

text \<open>
  C9. With \<^verbatim>\<open>--no-clear\<close> among the arguments \<open>clear_caches\<close> is never called: its
  opening line never reaches the console. The driver then leaves both cache directories
  alone: if the children, started where the caches are as they were before the
  invocation, leave them so, then the caches are the same at the end, however the
  program ends. Since nothing is asked of a child started elsewhere, this also says that
  each labelled run starts with the caches as they were before the invocation.
\<close>

theorem no_clear_keeps_caches:
  assumes "''--no-clear'' \<in> set argv"
  shows "Text ''Clearing caches...'' \<notin> set (console (snd (main e argv w))) \<and>
     ((\<forall>d w'. caches w' = caches w \<longrightarrow>
          caches (snd (cargo_build e d w')) = caches w \<and>
          caches (snd (cargo_run e d w')) = caches w) \<longrightarrow>
      caches (outside (snd (main e argv w))) = caches w)"
proof (intro conjI impI)
  let ?s = "snd (run_comparison e False (fresh w))"
  have "console ?s = emitted (fresh w) ?s"
    using run_comparison_no_clear [of e "fresh w"] by simp
  then have "Text ''Clearing caches...'' \<notin> set (console ?s)"
    using run_comparison_no_clear [of e "fresh w"] by (simp add: ClearStep_steps_of)
  then show "Text ''Clearing caches...'' \<notin> set (console (snd (main e argv w)))"
    using assms by (simp add: main_unfold usage_def)
next
  assume H: "\<forall>d w'. caches w' = caches w \<longrightarrow>
      caches (snd (cargo_build e d w')) = caches w \<and> caches (snd (cargo_run e d w')) = caches w"
  have "caches (outside (snd (run_comparison e False (fresh w)))) = caches w"
    by (rule run_comparison_no_clear_caches [OF H]) simp
  then show "caches (outside (snd (main e argv w))) = caches w"
    using assms by (simp add: main_unfold)
qed

theorem no_clear_keeps_caches_witness:
  "Text ''Clearing caches...'' \<notin> set (console (snd (main
     (demo_env (exit_with 0 [] []) (Completed (exit_with 0 [] [])))
     [''compare_performance.py'', ''--no-clear''] demo_world))) \<and>
   caches (outside (snd (main (demo_env (exit_with 0 [] []) (Completed (exit_with 0 [] [])))
     [''compare_performance.py'', ''--no-clear''] demo_world))) =
     (Some [1048576, 2097152], None)"
proof -
  have "caches demo_world = (Some [1048576, 2097152], None)"
    by (simp add: caches_def demo_world_def)
  then show ?thesis
    using no_clear_keeps_caches
      [of "[''compare_performance.py'', ''--no-clear'']"
          "demo_env (exit_with 0 [] []) (Completed (exit_with 0 [] []))" demo_world]
    by simp
qed

text \<open>
  C10. A Run Result returned by \<open>run_version\<close> holds under \<^verbatim>\<open>total_execution\<close> the time
  the driver measured around the run step, so it is never empty. Hence, for a new
  \<open>PerformanceComparison\<close> whose comparison gets as far as the test that guards
  \<open>compare_results\<close>, the test holds exactly when both labelled runs took place and
  returned a Run Result.
\<close>

theorem successful_run_has_total_execution:
  "(fst (run_version e d n s) = Inr (Some t) \<longrightarrow>
      t \<noteq> [] \<and>
      map_of t ''total_execution'' =
        Some (Finite (clock (snd (cargo_run e d (snd (cargo_build e d (outside s))))) -
                      clock (snd (cargo_build e d (outside s)))))) \<and>
   (results s0 = init_results \<and> run_comparison e c s0 = (Inr u, s') \<longrightarrow>
      (original (results (before_compare e c s0)) \<noteq> [] \<and>
       optimized (results (before_compare e c s0)) \<noteq> [] \<longleftrightarrow>
       (original_dir_exists (outside (before_original c s0)) \<and>
        succeeds e OriginalDir ''original'' (before_original c s0)) \<and>
       (optimized_dir_exists (outside (before_optimized e c s0)) \<and>
        succeeds e OptimizedDir ''optimized'' (before_optimized e c s0))))"
proof (intro conjI impI)
  assume "fst (run_version e d n s) = Inr (Some t)"
  then show "t \<noteq> []"
    and "map_of t ''total_execution'' =
        Some (Finite (clock (snd (cargo_run e d (snd (cargo_build e d (outside s))))) -
                      clock (snd (cargo_build e d (outside s)))))"
    by (rule run_version_some_total_execution)+
next
  assume h: "results s0 = init_results \<and> run_comparison e c s0 = (Inr u, s')"
  let ?A = "before_original c s0"
  let ?B = "before_optimized e c s0"
  from h have "results s0 = init_results" by (rule conjunct1)
  then have i: "original (results s0) = []" "optimized (results s0) = []"
    by (simp_all add: init_results_def)
  have "original (results (before_compare e c s0)) =
      original (results (snd (run_original_step e ?A)))"
    by (simp add: before_compare_def run_optimized_step_results(1) before_optimized_def)
  moreover have "original (results ?A) = []"
    using i by (simp add: before_original_def)
  ultimately have a: "original (results (before_compare e c s0)) \<noteq> [] \<longleftrightarrow>
      original_dir_exists (outside ?A) \<and> succeeds e OriginalDir ''original'' ?A"
    by (simp only: run_original_step_stores)
  have "optimized (results ?B) = []"
    using i by (simp add: before_optimized_def before_original_def run_original_step_results(1))
  then have b: "optimized (results (before_compare e c s0)) \<noteq> [] \<longleftrightarrow>
      optimized_dir_exists (outside ?B) \<and> succeeds e OptimizedDir ''optimized'' ?B"
    unfolding before_compare_def by (rule run_optimized_step_stores)
  show "original (results (before_compare e c s0)) \<noteq> [] \<and>
       optimized (results (before_compare e c s0)) \<noteq> [] \<longleftrightarrow>
       (original_dir_exists (outside ?A) \<and> succeeds e OriginalDir ''original'' ?A) \<and>
       (optimized_dir_exists (outside ?B) \<and> succeeds e OptimizedDir ''optimized'' ?B)"
    by (simp only: a b)
qed

text \<open>
  An example: both builds and both runs succeed without printing anything, and the caches
  are not cleared. The first Run Result holds the three seconds the run took and the three
  megabytes of the cache.
\<close>

theorem successful_run_has_total_execution_witness:
  "fst (run_version (demo_env (exit_with 0 [] []) (Completed (exit_with 0 [] [])))
          OriginalDir ''original'' (fresh demo_world)) =
     Inr (Some [(''total_execution'', Finite 3), (''cache_size_mb'', Finite 3)]) \<and>
   map_of [(''total_execution'', Finite 3), (''cache_size_mb'', Finite 3)] ''total_execution'' =
     Some (Finite (103 - 100)) \<and>
   fst (run_comparison (demo_env (exit_with 0 [] []) (Completed (exit_with 0 [] [])))
          False (fresh demo_world)) = Inr () \<and>
   original (results (before_compare
     (demo_env (exit_with 0 [] []) (Completed (exit_with 0 [] []))) False (fresh demo_world)))
     \<noteq> [] \<and>
   optimized (results (before_compare
     (demo_env (exit_with 0 [] []) (Completed (exit_with 0 [] []))) False (fresh demo_world)))
     \<noteq> []"
proof -
  let ?e = "demo_env (exit_with 0 [] []) (Completed (exit_with 0 [] []))"
  let ?s0 = "fresh demo_world"
  let ?s' = "snd (run_comparison ?e False ?s0)"
  let ?t = "[(''total_execution'', Finite 3), (''cache_size_mb'', Finite 3)]"
  have ok: "succeeds ?e d n s" for d n s
    by (simp add: succeeds_ok_iff)
  have nr: "fst (run_version ?e d n s) \<noteq> Inl TimeoutExpired" for d n s
    by (simp add: run_version_raises_iff)
  have c: "fst (run_comparison ?e False ?s0) = Inr ()"
    by (simp add: run_comparison_completes_iff nr)
  then have r: "run_comparison ?e False ?s0 = (Inr (), ?s')"
    by (simp add: prod_eq_iff)
  have d1: "original_dir_exists (outside (before_original False ?s0))"
    by (simp add: before_original_def demo_world_def)
  have d2: "optimized_dir_exists (outside (before_optimized ?e False ?s0))"
    by (simp add: before_optimized_def before_original_def run_original_step_outside
        run_version_outside demo_world_def)
  have t: "fst (run_version ?e OriginalDir ''original'' ?s0) = Inr (Some ?t)"
    by (simp add: run_version_ok [where p = "exit_with 0 [] []"] demo_world_def)
  have i: "results ?s0 = init_results" by simp
  note T = successful_run_has_total_execution
    [of ?e OriginalDir "''original''" ?s0 ?t ?s0 False "()" ?s']
  have 1: "map_of ?t ''total_execution'' = Some (Finite (103 - 100))"
    using T t by (simp add: demo_world_def)
  have 2: "original (results (before_compare ?e False ?s0)) \<noteq> [] \<and>
     optimized (results (before_compare ?e False ?s0)) \<noteq> []"
    using T i r d1 d2 ok by blast
  from t 1 c 2 show ?thesis by blast
qed

end
